theory Spec2Isabelle
  imports Main "HOL-Library.Word"
begin

unbundle bit_operations_syntax

section \<open>Buffers and the constants of the driver header\<close>

text \<open>
  The driver \<^verbatim>\<open>libfprint/drivers/egismoc/egismoc.c\<close> works on \<^verbatim>\<open>guchar\<close> buffers.
  A buffer is a list of bytes; \<^verbatim>\<open>g_malloc0\<close> gives zeros, \<^verbatim>\<open>memcpy\<close> and a one-byte
  \<^verbatim>\<open>memset\<close> overwrite a range that the source always keeps inside the allocation
  written to.
\<close>

type_synonym guchar = "8 word"

definition g_malloc0 :: "nat \<Rightarrow> guchar list" where
  "g_malloc0 n = replicate n 0"

text \<open>
  \<^verbatim>\<open>memcpy (dst + pos, src, n)\<close>, for \<open>pos + n \<le> length dst\<close>: it copies \<open>n\<close> bytes, whatever
  the size of the object at \<open>src\<close>, so the length of \<open>dst\<close> stays. Where that object has
  fewer than \<open>n\<close> bytes the C program reads the bytes that follow it in memory; the model
  does not determine them (they are \<open>src ! i\<close> for \<open>i\<close> past the end of \<open>src\<close>).
\<close>

definition memcpy :: "guchar list \<Rightarrow> nat \<Rightarrow> guchar list \<Rightarrow> nat \<Rightarrow> guchar list" where
  "memcpy dst pos src n = take pos dst @ map (\<lambda>i. src ! i) [0..<n] @ drop (pos + n) dst"

text \<open>\<^verbatim>\<open>memset (dst + pos, c, sizeof (guchar))\<close>: the \<^verbatim>\<open>int\<close> argument is converted to
  \<^verbatim>\<open>unsigned char\<close>, that is, taken modulo 256.\<close>

definition memset1 :: "guchar list \<Rightarrow> nat \<Rightarrow> int \<Rightarrow> guchar list" where
  "memset1 dst pos c = dst[pos := word_of_int c]"

text \<open>Modelled from the spec: the table \<^verbatim>\<open>egismoc_write_prefix\<close> of \<^verbatim>\<open>egismoc.h\<close>, which is
  not among the sources; the wire frame is \<^verbatim>\<open>'E' 'G' 'I' 'S' 00 00 00 01\<close>, then the check bytes.\<close>

definition egismoc_write_prefix :: "guchar list" where
  "egismoc_write_prefix = [0x45, 0x47, 0x49, 0x53, 0x00, 0x00, 0x00, 0x01]"

definition egismoc_write_prefix_len :: nat where
  "egismoc_write_prefix_len = length egismoc_write_prefix"

text \<open>Modelled from the spec: \<^verbatim>\<open>EGISMOC_CHECK_BYTES_LENGTH\<close> of \<^verbatim>\<open>egismoc.h\<close>, the two check bytes.\<close>

definition EGISMOC_CHECK_BYTES_LENGTH :: nat where
  "EGISMOC_CHECK_BYTES_LENGTH = 2"

text \<open>Modelled from the spec: \<^verbatim>\<open>egismoc_read_prefix_len\<close> of \<^verbatim>\<open>egismoc.h\<close>, the fixed 6-byte
  header that the device puts before every reply.\<close>

definition egismoc_read_prefix_len :: nat where
  "egismoc_read_prefix_len = 6"

text \<open>Modelled from the spec: \<^verbatim>\<open>EGISMOC_FINGERPRINT_DATA_SIZE\<close> of \<^verbatim>\<open>egismoc.h\<close>, the length
  of a print identifier.\<close>

definition EGISMOC_FINGERPRINT_DATA_SIZE :: nat where
  "EGISMOC_FINGERPRINT_DATA_SIZE = 32"

text \<open>Modelled from the spec: \<^verbatim>\<open>EGISMOC_CMD_CHECK_SEPARATOR_LENGTH\<close> of \<^verbatim>\<open>egismoc.h\<close>, the
  32 zero bytes before the identifiers of a check command.\<close>

definition EGISMOC_CMD_CHECK_SEPARATOR_LENGTH :: nat where
  "EGISMOC_CMD_CHECK_SEPARATOR_LENGTH = 32"

text \<open>Modelled from the spec: \<^verbatim>\<open>EGISMOC_MAX_ENROLL_NUM\<close> of \<^verbatim>\<open>egismoc.h\<close>.\<close>

definition EGISMOC_MAX_ENROLL_NUM :: int where
  "EGISMOC_MAX_ENROLL_NUM = 10"

section \<open>Frame codec\<close>

subsection \<open>\<^verbatim>\<open>egismoc_get_check_bytes\<close>\<close>

text \<open>
  The first loop of \<^verbatim>\<open>egismoc_get_check_bytes\<close> fills the array
  \<^verbatim>\<open>value_bigendian_shorts\<close>: it steps through the buffer two bytes at a time and stores
  \<^verbatim>\<open>(((short) value[i+1]) << 8) | (0x00ff & value[i])\<close>, with a zero high byte for the last
  byte of a buffer of odd length. The elements are \<^verbatim>\<open>unsigned short\<close>.
\<close>

fun value_bigendian_shorts :: "guchar list \<Rightarrow> 16 word list" where
  "value_bigendian_shorts (lo # hi # rest) =
     (push_bit 8 (ucast hi) OR (0x00ff AND ucast lo)) # value_bigendian_shorts rest"
| "value_bigendian_shorts [lo] = [push_bit 8 0x00 OR (0x00ff AND ucast lo)]"
| "value_bigendian_shorts [] = []"

text \<open>
  The second loop adds the elements to \<^verbatim>\<open>unsigned long sum_shorts\<close>, 64 bits wide on the
  LP64 platforms that libfprint is built for; the addition wraps.
\<close>

fun sum_shorts_loop :: "16 word list \<Rightarrow> 64 word \<Rightarrow> 64 word" where
  "sum_shorts_loop [] s = s"
| "sum_shorts_loop (w # ws) s = sum_shorts_loop ws (s + ucast w)"

definition sum_shorts :: "guchar list \<Rightarrow> 64 word" where
  "sum_shorts val = sum_shorts_loop (value_bigendian_shorts val) 0"

text \<open>\<^verbatim>\<open>check_short = 0xffff - (sum_shorts % 0xffff)\<close>, stored in an \<^verbatim>\<open>unsigned short\<close>.\<close>

definition check_short :: "guchar list \<Rightarrow> 16 word" where
  "check_short val = ucast (0xffff - (sum_shorts val mod 0xffff))"

text \<open>
  \<^verbatim>\<open>check_short_split = (guchar*) &check_short\<close> reads the two bytes of the
  \<^verbatim>\<open>unsigned short\<close> in memory order; on the little-endian hosts of the driver the low byte
  comes first.
\<close>

definition check_short_split :: "16 word \<Rightarrow> guchar list" where
  "check_short_split c = [ucast c, ucast (drop_bit 8 c)]"

text \<open>
  The last loop copies \<^verbatim>\<open>check_bytes_length\<close> bytes of \<^verbatim>\<open>check_short_split\<close>; the only call
  passes \<^verbatim>\<open>EGISMOC_CHECK_BYTES_LENGTH\<close>, the size of the \<^verbatim>\<open>unsigned short\<close>.
\<close>

definition egismoc_get_check_bytes :: "guchar list \<Rightarrow> nat \<Rightarrow> guchar list" where
  "egismoc_get_check_bytes val check_bytes_length =
     map (\<lambda>i. check_short_split (check_short val) ! i) [0..<check_bytes_length]"

subsection \<open>\<^verbatim>\<open>egismoc_compose_cmd\<close>\<close>

definition egismoc_compose_cmd :: "guchar list \<Rightarrow> guchar list" where
  "egismoc_compose_cmd cmd =
     (let cmd_length = length cmd;
          total_length = egismoc_write_prefix_len + EGISMOC_CHECK_BYTES_LENGTH + cmd_length;
          result0 = g_malloc0 total_length;
          result1 = memcpy result0 0 egismoc_write_prefix egismoc_write_prefix_len;
          result2 = memcpy result1 (egismoc_write_prefix_len + EGISMOC_CHECK_BYTES_LENGTH)
                      cmd cmd_length;
          check_bytes = egismoc_get_check_bytes result2 EGISMOC_CHECK_BYTES_LENGTH
      in memcpy result2 egismoc_write_prefix_len check_bytes EGISMOC_CHECK_BYTES_LENGTH)"

section \<open>Response classification\<close>

text \<open>\<^verbatim>\<open>memcmp (buf + off, marker, n) == 0\<close>: the \<open>n\<close> bytes of \<open>buf\<close> from offset \<open>off\<close> equal
  the first \<open>n\<close> bytes of \<open>marker\<close>.\<close>

definition memcmp_eq :: "guchar list \<Rightarrow> nat \<Rightarrow> guchar list \<Rightarrow> nat \<Rightarrow> bool" where
  "memcmp_eq buf off marker n = list_all (\<lambda>i. buf ! (off + i) = marker ! i) [0..<n]"

text \<open>
  \<open>buffer_in\<close> is the whole receive buffer of the transfer and \<open>buffer_in_len\<close> the number of
  bytes received into it. \<^verbatim>\<open>egismoc_validate_response_prefix\<close> does not use its length argument.
\<close>

definition egismoc_validate_response_prefix ::
  "guchar list \<Rightarrow> nat \<Rightarrow> guchar list \<Rightarrow> bool" where
  "egismoc_validate_response_prefix buffer_in buffer_in_len valid_prefix =
     memcmp_eq buffer_in (egismoc_read_prefix_len + EGISMOC_CHECK_BYTES_LENGTH)
       valid_prefix (length valid_prefix)"

text \<open>
  The suffix is compared at \<^verbatim>\<open>buffer_in + (buffer_in_len - valid_suffix_len)\<close>. The
  difference is computed in \<^verbatim>\<open>size_t\<close>, 64 bits wide on the LP64 platforms of the driver,
  and added to a 64-bit address: for a reply shorter than the marker it wraps, and the
  comparison starts before the receive buffer. The addresses are kept relative to
  \<open>buffer_in\<close>; the model does not determine the bytes outside the buffer (\<open>buffer_in ! i\<close>
  for \<open>i\<close> past its end).
\<close>

definition egismoc_validate_response_suffix ::
  "guchar list \<Rightarrow> nat \<Rightarrow> guchar list \<Rightarrow> bool" where
  "egismoc_validate_response_suffix buffer_in buffer_in_len valid_suffix =
     (let offset = (word_of_nat buffer_in_len - word_of_nat (length valid_suffix) :: 64 word)
      in list_all (\<lambda>i. buffer_in ! unat (offset + word_of_nat i) = valid_suffix ! i)
           [0..<length valid_suffix])"

section \<open>Command builders\<close>

subsection \<open>\<^verbatim>\<open>egismoc_get_check_cmd\<close>\<close>

text \<open>
  The tables \<^verbatim>\<open>cmd_check_prefix\<close> and \<^verbatim>\<open>cmd_check_suffix\<close> of \<^verbatim>\<open>egismoc.h\<close> are parameters,
  \<open>enrolled_num\<close> and \<open>enrolled_ids\<close> are the fields of the device that the function reads.
  The buffer \<open>result\<close> and the offset \<open>pos\<close> are threaded through the statements in the
  order of the source.
\<close>

text \<open>
  The block "Size Counter bytes", which the source has twice: before the prefix with
  \<^verbatim>\<open>+ 0x09\<close>, after it with nothing added (\<open>addend\<close> is \<open>0x09\<close> and \<open>0x00\<close>). For more than 6
  identifiers it writes \<^verbatim>\<open>0x01\<close> and the size byte, otherwise it leaves a zero byte and
  writes the size byte.
\<close>

definition check_cmd_size_counter :: "int \<Rightarrow> int \<Rightarrow> guchar list \<times> nat \<Rightarrow> guchar list \<times> nat" where
  "check_cmd_size_counter enrolled_num addend = (\<lambda>(result, pos).
     if enrolled_num > 6 then
       (let result = memset1 result pos 0x01;
            pos = pos + 1;
            result = memset1 result pos (((enrolled_num - 7) * 0x20) + addend);
            pos = pos + 1
        in (result, pos))
     else
       (let pos = pos + 1;
            result = memset1 result pos (((enrolled_num + 1) * 0x20) + addend);
            pos = pos + 1
        in (result, pos)))"

definition egismoc_get_check_cmd ::
  "guchar list \<Rightarrow> guchar list \<Rightarrow> int \<Rightarrow> guchar list list \<Rightarrow> guchar list" where
  "egismoc_get_check_cmd cmd_check_prefix cmd_check_suffix enrolled_num enrolled_ids =
     (let cmd_check_prefix_len = length cmd_check_prefix;
          cmd_check_suffix_len = length cmd_check_suffix;
          body_length = nat enrolled_num * EGISMOC_FINGERPRINT_DATA_SIZE;
          total_length = 6 + cmd_check_prefix_len + EGISMOC_CMD_CHECK_SEPARATOR_LENGTH
                           + body_length + cmd_check_suffix_len;
          result = g_malloc0 total_length;
          pos = 2;
          (result, pos) = check_cmd_size_counter enrolled_num 0x09 (result, pos);
          result = memcpy result pos cmd_check_prefix cmd_check_prefix_len;
          pos = pos + cmd_check_prefix_len;
          (result, pos) = check_cmd_size_counter enrolled_num 0x00 (result, pos);
          pos = pos + EGISMOC_CMD_CHECK_SEPARATOR_LENGTH;
          print_id_length = EGISMOC_FINGERPRINT_DATA_SIZE;
          result = fold (\<lambda>i result. memcpy result (pos + print_id_length * i)
                                        (enrolled_ids ! i) print_id_length)
                     [0..<nat enrolled_num] result;
          pos = pos + body_length;
          result = memcpy result pos cmd_check_suffix cmd_check_suffix_len
      in result)"

subsection \<open>\<^verbatim>\<open>egismoc_get_delete_cmd\<close>\<close>

text \<open>
  Of a print the driver reads the description and the \<^verbatim>\<open>fpi-data\<close> variant; the variant
  has the format \<^verbatim>\<open>(@ay)\<close>, a byte array, or some other format.
\<close>

datatype gvariant = Variant_ay "guchar list" | Variant_other

record fp_print =
  description :: string
  fpi_data :: gvariant

text \<open>The size counter block of \<^verbatim>\<open>egismoc_get_delete_cmd\<close>, there twice as well, with
  \<^verbatim>\<open>+ 0x07\<close> before the prefix and nothing added after it; the second byte is used from 8
  identifiers on.\<close>

definition delete_cmd_size_counter :: "int \<Rightarrow> int \<Rightarrow> guchar list \<times> nat \<Rightarrow> guchar list \<times> nat" where
  "delete_cmd_size_counter num_to_delete addend = (\<lambda>(result, pos).
     if num_to_delete > 7 then
       (let result = memset1 result pos 0x01;
            pos = pos + 1;
            result = memset1 result pos (((num_to_delete - 8) * 0x20) + addend);
            pos = pos + 1
        in (result, pos))
     else
       (let pos = pos + 1;
            result = memset1 result pos ((num_to_delete * 0x20) + addend);
            pos = pos + 1
        in (result, pos)))"

text \<open>
  The result is \<open>None\<close> where the source returns \<^verbatim>\<open>NULL\<close>, after it has completed the delete
  with \<^verbatim>\<open>FP_DEVICE_ERROR_DATA_INVALID\<close>: a print to delete whose data is not a byte array.
  \<open>delete_print = None\<close> is the \<^verbatim>\<open>NULL\<close> print of a clear.
\<close>

definition egismoc_get_delete_cmd ::
  "guchar list \<Rightarrow> int \<Rightarrow> guchar list list \<Rightarrow> fp_print option \<Rightarrow> guchar list option" where
  "egismoc_get_delete_cmd cmd_delete_prefix enrolled_num enrolled_ids delete_print =
     (let cmd_delete_prefix_len = length cmd_delete_prefix;
          num_to_delete = (if delete_print = None then enrolled_num else 1);
          body_length = EGISMOC_FINGERPRINT_DATA_SIZE * nat num_to_delete;
          print_id_length = EGISMOC_FINGERPRINT_DATA_SIZE;
          total_length = 6 + cmd_delete_prefix_len + body_length;
          result = g_malloc0 total_length;
          pos = 2;
          (result, pos) = delete_cmd_size_counter num_to_delete 0x07 (result, pos);
          result = memcpy result pos cmd_delete_prefix cmd_delete_prefix_len;
          pos = pos + cmd_delete_prefix_len;
          (result, pos) = delete_cmd_size_counter num_to_delete 0x00 (result, pos)
      in case delete_print of
           Some p \<Rightarrow>
             (case fpi_data p of
                Variant_ay print_data_id \<Rightarrow> Some (memcpy result pos print_data_id print_id_length)
              | Variant_other \<Rightarrow> None)
         | None \<Rightarrow>
             Some (fold (\<lambda>i result. memcpy result (pos + print_id_length * i)
                                       (enrolled_ids ! i) print_id_length)
                     [0..<nat enrolled_num] result))"

section \<open>Devices, transfers and state machines\<close>

subsection \<open>What the driver shows to the outside\<close>

datatype fp_error =
    FP_DEVICE_ERROR_GENERAL
  | FP_DEVICE_ERROR_PROTO
  | FP_DEVICE_ERROR_DATA_INVALID
  | FP_DEVICE_ERROR_DATA_DUPLICATE
  | FP_DEVICE_ERROR_DATA_FULL
  | FP_DEVICE_ERROR_DATA_NOT_FOUND
  | FP_DEVICE_RETRY_CENTER_FINGER
  | FP_DEVICE_RETRY_REMOVE_FINGER
  | USB_TRANSFER_ERROR

text \<open>
  The payload handed to \<^verbatim>\<open>egismoc_compose_cmd\<close> and \<^verbatim>\<open>egismoc_get_cmd\<close>: one of the command
  tables of \<^verbatim>\<open>egismoc.h\<close>, named, or a body built at run time.
\<close>

datatype command =
    CMD_LIST
  | CMD_SENSOR_RESET
  | CMD_SENSOR_ENROLL
  | CMD_SENSOR_IDENTIFY
  | CMD_SENSOR_CHECK
  | CMD_SENSOR_START_CAPTURE
  | CMD_READ_CAPTURE
  | CMD_ENROLL_STARTING
  | CMD_COMMIT_STARTING
  | CMD_CHECK "guchar list"
  | CMD_DELETE "guchar list"
  | CMD_NEW_PRINT "guchar list"

datatype finger_status = FP_FINGER_STATUS_NEEDED | FP_FINGER_STATUS_PRESENT

datatype match_result = FPI_MATCH_FAIL | FPI_MATCH_SUCCESS

text \<open>
  The calls that leave the driver, in the order in which it makes them: a command frame
  submitted on the bulk-OUT endpoint, the interrupt transfer of the finger wait, and the
  reports to the framework. Prints appear as their identifiers. The last event is the
  read through a \<^verbatim>\<open>NULL\<close> pointer, after which the process does not go on.
\<close>

datatype out_event =
    Usb_cmd_out command
  | Usb_interrupt_in
  | Report_finger_status finger_status
  | Enroll_progress int bool "fp_error option"
  | Enroll_complete bool "fp_error option"
  | Identify_report "guchar list option" "guchar list option"
  | Verify_report match_result "guchar list option"
  | Identify_complete
  | Verify_complete
  | Clear_storage_complete "fp_error option"
  | List_complete "guchar list list"
  | Delete_complete "fp_error option"
  | Action_error fp_error
  | Null_pointer_dereference

subsection \<open>The device\<close>

text \<open>Modelled from the spec: the tables and constants of \<^verbatim>\<open>egismoc.h\<close> that the state machines
  use. The header is not among the sources and the spec calls the markers opaque constants
  of the device, so they are parameters of the model.
\<close>

record egismoc_tables =
  cmd_delete_prefix :: "guchar list"
  cmd_check_prefix :: "guchar list"
  cmd_check_suffix :: "guchar list"
  cmd_new_print_prefix :: "guchar list"
  rsp_delete_success_prefix :: "guchar list"
  rsp_read_success_prefix :: "guchar list"
  rsp_read_success_suffix :: "guchar list"
  rsp_read_offcenter_prefix :: "guchar list"
  rsp_read_offcenter_suffix :: "guchar list"
  rsp_read_dirty_prefix :: "guchar list"
  rsp_check_not_yet_enrolled_prefix :: "guchar list"
  rsp_identify_match_prefix :: "guchar list"
  rsp_identify_match_suffix :: "guchar list"
  rsp_identify_notmatch_prefix :: "guchar list"
  EGISMOC_ENROLL_TIMES :: int

text \<open>Modelled from the spec: \<^verbatim>\<open>EGISMOC_IDENTIFY_RESPONSE_PRINT_ID_OFFSET\<close> of \<^verbatim>\<open>egismoc.h\<close>.\<close>

definition EGISMOC_IDENTIFY_RESPONSE_PRINT_ID_OFFSET :: nat where
  "EGISMOC_IDENTIFY_RESPONSE_PRINT_ID_OFFSET = 46"

text \<open>Modelled from the spec: the state enumerations of \<^verbatim>\<open>egismoc.h\<close>, in the order of the steps
  of section 4.E of the spec, which is the order of the \<^verbatim>\<open>case\<close> labels of the handlers.
\<close>

datatype enroll_state =
    ENROLL_GET_ENROLLED_IDS
  | ENROLL_CHECK_ENROLLED_NUM
  | ENROLL_SENSOR_RESET
  | ENROLL_SENSOR_ENROLL
  | ENROLL_WAIT_FINGER
  | ENROLL_SENSOR_CHECK
  | ENROLL_CHECK
  | ENROLL_START
  | ENROLL_CAPTURE_SENSOR_RESET
  | ENROLL_CAPTURE_SENSOR_START_CAPTURE
  | ENROLL_CAPTURE_WAIT_FINGER
  | ENROLL_CAPTURE_READ_RESPONSE
  | ENROLL_COMMIT_START
  | ENROLL_COMMIT
  | ENROLL_COMMIT_SENSOR_RESET
  | ENROLL_COMPLETE

datatype identify_state =
    IDENTIFY_GET_ENROLLED_IDS
  | IDENTIFY_CHECK_ENROLLED_NUM
  | IDENTIFY_SENSOR_RESET
  | IDENTIFY_SENSOR_IDENTIFY
  | IDENTIFY_WAIT_FINGER
  | IDENTIFY_SENSOR_CHECK
  | IDENTIFY_CHECK
  | IDENTIFY_COMPLETE_SENSOR_RESET
  | IDENTIFY_COMPLETE

datatype clear_storage_state =
    CLEAR_STORAGE_GET_ENROLLED_IDS_BEFORE
  | CLEAR_STORAGE_CLEAR
  | CLEAR_STORAGE_GET_ENROLLED_IDS_AFTER
  | CLEAR_STORAGE_COMPLETE

datatype list_state =
    LIST_GET_ENROLLED_IDS
  | LIST_RETURN_ENROLLED_PRINTS

datatype delete_state =
    DELETE_GET_ENROLLED_IDS
  | DELETE_DELETE

text \<open>The task state machine of the device: which handler it runs, and its current state.\<close>

datatype ssm_state =
    Enroll enroll_state
  | Identify identify_state
  | Clear_storage clear_storage_state
  | List list_state
  | Delete delete_state

text \<open>The callbacks that the driver passes to \<^verbatim>\<open>egismoc_get_cmd\<close>.\<close>

datatype callback =
    TASK_SSM_NEXT_STATE_CB
  | LIST_CB
  | CLEAR_STORAGE_CB
  | DELETE_CB
  | ENROLL_CHECK_CB
  | READ_CAPTURE_CB
  | IDENTIFY_CHECK_CB

text \<open>The transfer that the driver has submitted and whose completion it waits for.\<close>

datatype transfer = Cmd_transfer callback | Interrupt_transfer

datatype fpi_device_action = FPI_DEVICE_ACTION_IDENTIFY | FPI_DEVICE_ACTION_VERIFY

datatype enroll_status =
    ENROLL_STATUS_DEVICE_FULL
  | ENROLL_STATUS_DUPLICATE
  | ENROLL_STATUS_RETRY
  | ENROLL_STATUS_PARTIAL_OK
  | ENROLL_STATUS_COMPLETE

text \<open>
  The fields of \<^verbatim>\<open>FpiDeviceEgisMoc\<close> and what it reaches through the framework:
  \<open>enrolled_ids = None\<close> is the \<^verbatim>\<open>NULL\<close> array; \<open>task_ssm = None\<close> is no task machine;
  \<open>stage\<close> is the field of the \<^verbatim>\<open>EnrollPrint\<close> of the enroll machine; \<open>current_action\<close>,
  \<open>identify_data\<close> (the gallery), \<open>verify_data\<close>, \<open>delete_data\<close> and \<open>generated_user_id\<close> are
  what \<^verbatim>\<open>fpi_device_get_current_action\<close>, \<^verbatim>\<open>fpi_device_get_identify_data\<close>,
  \<^verbatim>\<open>fpi_device_get_verify_data\<close>, \<^verbatim>\<open>fpi_device_get_delete_data\<close> and
  \<^verbatim>\<open>fpi_print_generate_user_id\<close> return (of the last one the bytes of the string);
  \<open>trace\<close> collects the outputs.
\<close>

record device =
  enrolled_num :: int
  enrolled_ids :: "guchar list list option"
  task_ssm :: "ssm_state option"
  pending :: "transfer option"
  stage :: int
  current_action :: fpi_device_action
  identify_data :: "guchar list list"
  verify_data :: "guchar list"
  delete_data :: fp_print
  generated_user_id :: "guchar list"
  trace :: "out_event list"

definition emit :: "out_event \<Rightarrow> device \<Rightarrow> device" where
  "emit out self = self\<lparr>trace := trace self @ [out]\<rparr>"

subsection \<open>The transfer engine\<close>

text \<open>
  \<^verbatim>\<open>egismoc_get_cmd\<close> starts the command machine, whose first state submits the frame at once.
  The frame is \<^verbatim>\<open>egismoc_compose_cmd\<close> of the payload; the trace keeps the payload.
\<close>

definition egismoc_get_cmd :: "device \<Rightarrow> command \<Rightarrow> callback \<Rightarrow> device" where
  "egismoc_get_cmd self cmd cb = (emit (Usb_cmd_out cmd) self)\<lparr>pending := Some (Cmd_transfer cb)\<rparr>"

definition egismoc_wait_finger_on_sensor :: "device \<Rightarrow> device" where
  "egismoc_wait_finger_on_sensor self =
     (emit Usb_interrupt_in (emit (Report_finger_status FP_FINGER_STATUS_NEEDED) self))
       \<lparr>pending := Some Interrupt_transfer\<rparr>"

text \<open>
  \<^verbatim>\<open>egismoc_cmd_receive_cb\<close>, with \<^verbatim>\<open>egismoc_cmd_ssm_done\<close> for its two failures: the result
  is the triple \<^verbatim>\<open>(buffer_in, length_in, error)\<close> with which the callback of the command is
  called. \<open>buffer\<close> is the receive buffer of the transfer, \<open>actual_length\<close> the number of
  bytes received.
\<close>

definition egismoc_cmd_receive_cb ::
  "fp_error option \<Rightarrow> guchar list \<Rightarrow> nat \<Rightarrow> guchar list \<times> nat \<times> fp_error option" where
  "egismoc_cmd_receive_cb error buffer actual_length =
     (case error of
        Some e \<Rightarrow> ([], 0, Some e)
      | None \<Rightarrow>
          if actual_length < egismoc_read_prefix_len
          then ([], 0, Some FP_DEVICE_ERROR_GENERAL)
          else (buffer, actual_length, None))"

subsection \<open>Handlers of the task machines\<close>

text \<open>
  A handler returns the device and what it asked of its state machine: nothing (it has
  submitted a transfer, or it has only returned), \<^verbatim>\<open>fpi_ssm_next_state\<close>,
  \<^verbatim>\<open>fpi_ssm_mark_failed\<close> or \<^verbatim>\<open>fpi_ssm_mark_completed\<close>.
\<close>

datatype ssm_request =
    SSM_RETURN
  | SSM_NEXT_STATE
  | SSM_MARK_FAILED fp_error
  | SSM_MARK_COMPLETED

definition egismoc_fill_enrolled_ids :: "device \<Rightarrow> device" where
  "egismoc_fill_enrolled_ids self = egismoc_get_cmd (self\<lparr>enrolled_ids := Some []\<rparr>) CMD_LIST LIST_CB"

fun egismoc_enroll_status_report :: "device \<Rightarrow> enroll_status \<Rightarrow> fp_error option \<Rightarrow> device" where
  "egismoc_enroll_status_report self ENROLL_STATUS_DEVICE_FULL error =
     emit (Enroll_complete False error) self"
| "egismoc_enroll_status_report self ENROLL_STATUS_DUPLICATE error =
     emit (Enroll_complete False error) self"
| "egismoc_enroll_status_report self ENROLL_STATUS_RETRY error =
     emit (Enroll_progress (stage self) False error) self"
| "egismoc_enroll_status_report self ENROLL_STATUS_PARTIAL_OK error =
     (let self = self\<lparr>stage := stage self + 1\<rparr>
      in emit (Enroll_progress (stage self) True None) self)"
| "egismoc_enroll_status_report self ENROLL_STATUS_COMPLETE error =
     emit (Enroll_complete True None) self"

text \<open>The entries of \<open>enrolled_ids\<close>; the \<^verbatim>\<open>NULL\<close> array holds none. The handlers read the
  entries in states that follow a call of \<^verbatim>\<open>egismoc_fill_enrolled_ids\<close>, where the array is
  not \<^verbatim>\<open>NULL\<close>.\<close>

definition registry :: "device \<Rightarrow> guchar list list" where
  "registry self = (case enrolled_ids self of Some ids \<Rightarrow> ids | None \<Rightarrow> [])"

fun egismoc_enroll_run_state ::
  "egismoc_tables \<Rightarrow> device \<Rightarrow> enroll_state \<Rightarrow> device \<times> ssm_request" where
  "egismoc_enroll_run_state T self ENROLL_GET_ENROLLED_IDS =
     (egismoc_fill_enrolled_ids self, SSM_RETURN)"
| "egismoc_enroll_run_state T self ENROLL_CHECK_ENROLLED_NUM =
     (if enrolled_num self \<ge> EGISMOC_MAX_ENROLL_NUM
      then (egismoc_enroll_status_report self ENROLL_STATUS_DEVICE_FULL
              (Some FP_DEVICE_ERROR_DATA_FULL), SSM_RETURN)
      else (self, SSM_NEXT_STATE))"
| "egismoc_enroll_run_state T self ENROLL_SENSOR_RESET =
     (egismoc_get_cmd self CMD_SENSOR_RESET TASK_SSM_NEXT_STATE_CB, SSM_RETURN)"
| "egismoc_enroll_run_state T self ENROLL_SENSOR_ENROLL =
     (egismoc_get_cmd self CMD_SENSOR_ENROLL TASK_SSM_NEXT_STATE_CB, SSM_RETURN)"
| "egismoc_enroll_run_state T self ENROLL_WAIT_FINGER =
     (egismoc_wait_finger_on_sensor self, SSM_RETURN)"
| "egismoc_enroll_run_state T self ENROLL_SENSOR_CHECK =
     (egismoc_get_cmd self CMD_SENSOR_CHECK TASK_SSM_NEXT_STATE_CB, SSM_RETURN)"
| "egismoc_enroll_run_state T self ENROLL_CHECK =
     (egismoc_get_cmd self
        (CMD_CHECK (egismoc_get_check_cmd (cmd_check_prefix T) (cmd_check_suffix T)
                      (enrolled_num self) (registry self)))
        ENROLL_CHECK_CB, SSM_RETURN)"
| "egismoc_enroll_run_state T self ENROLL_START =
     (egismoc_get_cmd self CMD_ENROLL_STARTING TASK_SSM_NEXT_STATE_CB, SSM_RETURN)"
| "egismoc_enroll_run_state T self ENROLL_CAPTURE_SENSOR_RESET =
     (egismoc_get_cmd self CMD_SENSOR_RESET TASK_SSM_NEXT_STATE_CB, SSM_RETURN)"
| "egismoc_enroll_run_state T self ENROLL_CAPTURE_SENSOR_START_CAPTURE =
     (egismoc_get_cmd self CMD_SENSOR_START_CAPTURE TASK_SSM_NEXT_STATE_CB, SSM_RETURN)"
| "egismoc_enroll_run_state T self ENROLL_CAPTURE_WAIT_FINGER =
     (egismoc_wait_finger_on_sensor self, SSM_RETURN)"
| "egismoc_enroll_run_state T self ENROLL_CAPTURE_READ_RESPONSE =
     (egismoc_get_cmd self CMD_READ_CAPTURE READ_CAPTURE_CB, SSM_RETURN)"
| "egismoc_enroll_run_state T self ENROLL_COMMIT_START =
     (egismoc_get_cmd self CMD_COMMIT_STARTING TASK_SSM_NEXT_STATE_CB, SSM_RETURN)"
| "egismoc_enroll_run_state T self ENROLL_COMMIT =
     (let user_id = generated_user_id self;
          device_print_id = memcpy (g_malloc0 EGISMOC_FINGERPRINT_DATA_SIZE) 0 user_id
                              EGISMOC_FINGERPRINT_DATA_SIZE;
          cmd_length = length (cmd_new_print_prefix T) + EGISMOC_FINGERPRINT_DATA_SIZE;
          cmd = g_malloc0 cmd_length;
          cmd = memcpy cmd 0 (cmd_new_print_prefix T) (length (cmd_new_print_prefix T));
          cmd = memcpy cmd (length (cmd_new_print_prefix T)) device_print_id
                  EGISMOC_FINGERPRINT_DATA_SIZE
      in (egismoc_get_cmd self (CMD_NEW_PRINT cmd) TASK_SSM_NEXT_STATE_CB, SSM_RETURN))"
| "egismoc_enroll_run_state T self ENROLL_COMMIT_SENSOR_RESET =
     (egismoc_get_cmd self CMD_SENSOR_RESET TASK_SSM_NEXT_STATE_CB, SSM_RETURN)"
| "egismoc_enroll_run_state T self ENROLL_COMPLETE =
     (egismoc_enroll_status_report self ENROLL_STATUS_COMPLETE None, SSM_NEXT_STATE)"

fun egismoc_identify_run_state ::
  "egismoc_tables \<Rightarrow> device \<Rightarrow> identify_state \<Rightarrow> device \<times> ssm_request" where
  "egismoc_identify_run_state T self IDENTIFY_GET_ENROLLED_IDS =
     (egismoc_fill_enrolled_ids self, SSM_RETURN)"
| "egismoc_identify_run_state T self IDENTIFY_CHECK_ENROLLED_NUM =
     (if enrolled_num self = 0
      then (self\<lparr>task_ssm := None\<rparr>, SSM_MARK_FAILED FP_DEVICE_ERROR_DATA_NOT_FOUND)
      else (self, SSM_NEXT_STATE))"
| "egismoc_identify_run_state T self IDENTIFY_SENSOR_RESET =
     (egismoc_get_cmd self CMD_SENSOR_RESET TASK_SSM_NEXT_STATE_CB, SSM_RETURN)"
| "egismoc_identify_run_state T self IDENTIFY_SENSOR_IDENTIFY =
     (egismoc_get_cmd self CMD_SENSOR_IDENTIFY TASK_SSM_NEXT_STATE_CB, SSM_RETURN)"
| "egismoc_identify_run_state T self IDENTIFY_WAIT_FINGER =
     (egismoc_wait_finger_on_sensor self, SSM_RETURN)"
| "egismoc_identify_run_state T self IDENTIFY_SENSOR_CHECK =
     (egismoc_get_cmd self CMD_SENSOR_CHECK TASK_SSM_NEXT_STATE_CB, SSM_RETURN)"
| "egismoc_identify_run_state T self IDENTIFY_CHECK =
     (egismoc_get_cmd self
        (CMD_CHECK (egismoc_get_check_cmd (cmd_check_prefix T) (cmd_check_suffix T)
                      (enrolled_num self) (registry self)))
        IDENTIFY_CHECK_CB, SSM_RETURN)"
| "egismoc_identify_run_state T self IDENTIFY_COMPLETE_SENSOR_RESET =
     (egismoc_get_cmd self CMD_SENSOR_RESET TASK_SSM_NEXT_STATE_CB, SSM_RETURN)"
| "egismoc_identify_run_state T self IDENTIFY_COMPLETE =
     (if current_action self = FPI_DEVICE_ACTION_IDENTIFY
      then (emit Identify_complete self, SSM_MARK_COMPLETED)
      else (emit Verify_complete self, SSM_MARK_COMPLETED))"

text \<open>In \<^verbatim>\<open>CLEAR_STORAGE_CLEAR\<close> the delete command is built for the \<^verbatim>\<open>NULL\<close> print, for which
  \<^verbatim>\<open>egismoc_get_delete_cmd\<close> always returns a command.\<close>

fun egismoc_clear_storage_run_state ::
  "egismoc_tables \<Rightarrow> device \<Rightarrow> clear_storage_state \<Rightarrow> device \<times> ssm_request" where
  "egismoc_clear_storage_run_state T self CLEAR_STORAGE_GET_ENROLLED_IDS_BEFORE =
     (egismoc_fill_enrolled_ids self, SSM_RETURN)"
| "egismoc_clear_storage_run_state T self CLEAR_STORAGE_CLEAR =
     (case egismoc_get_delete_cmd (cmd_delete_prefix T) (enrolled_num self) (registry self) None of
        Some cmd \<Rightarrow> (egismoc_get_cmd self (CMD_DELETE cmd) CLEAR_STORAGE_CB, SSM_RETURN)
      | None \<Rightarrow> (self, SSM_RETURN))"
| "egismoc_clear_storage_run_state T self CLEAR_STORAGE_GET_ENROLLED_IDS_AFTER =
     (egismoc_fill_enrolled_ids self, SSM_RETURN)"
| "egismoc_clear_storage_run_state T self CLEAR_STORAGE_COMPLETE =
     (if enrolled_num self = 0
      then (emit (Clear_storage_complete None) self, SSM_MARK_COMPLETED)
      else (emit (Clear_storage_complete (Some FP_DEVICE_ERROR_PROTO)) self, SSM_RETURN))"

text \<open>\<^verbatim>\<open>egismoc_get_enrolled_prints\<close> makes a print of each of the first \<open>enrolled_num\<close>
  entries of \<open>enrolled_ids\<close>.\<close>

definition egismoc_get_enrolled_prints :: "device \<Rightarrow> guchar list list" where
  "egismoc_get_enrolled_prints self =
     map (\<lambda>i. registry self ! i) [0..<nat (enrolled_num self)]"

fun egismoc_list_run_state ::
  "egismoc_tables \<Rightarrow> device \<Rightarrow> list_state \<Rightarrow> device \<times> ssm_request" where
  "egismoc_list_run_state T self LIST_GET_ENROLLED_IDS =
     (egismoc_fill_enrolled_ids self, SSM_RETURN)"
| "egismoc_list_run_state T self LIST_RETURN_ENROLLED_PRINTS =
     (emit (List_complete (egismoc_get_enrolled_prints self)) self, SSM_NEXT_STATE)"

text \<open>
  In \<^verbatim>\<open>DELETE_DELETE\<close> the delete command is built for the print to delete. Where
  \<^verbatim>\<open>egismoc_get_delete_cmd\<close> returns \<^verbatim>\<open>NULL\<close> it has completed the delete with
  \<^verbatim>\<open>FP_DEVICE_ERROR_DATA_INVALID\<close>, and the handler then reads \<^verbatim>\<open>cmd->cmd\<close> through the
  \<^verbatim>\<open>NULL\<close> pointer.
\<close>

fun egismoc_delete_run_state ::
  "egismoc_tables \<Rightarrow> device \<Rightarrow> delete_state \<Rightarrow> device \<times> ssm_request" where
  "egismoc_delete_run_state T self DELETE_GET_ENROLLED_IDS =
     (egismoc_fill_enrolled_ids self, SSM_RETURN)"
| "egismoc_delete_run_state T self DELETE_DELETE =
     (case egismoc_get_delete_cmd (cmd_delete_prefix T) (enrolled_num self) (registry self)
             (Some (delete_data self)) of
        Some cmd \<Rightarrow> (egismoc_get_cmd self (CMD_DELETE cmd) DELETE_CB, SSM_RETURN)
      | None \<Rightarrow>
          (emit Null_pointer_dereference
             (emit (Delete_complete (Some FP_DEVICE_ERROR_DATA_INVALID)) self), SSM_RETURN))"

fun ssm_handler :: "egismoc_tables \<Rightarrow> device \<Rightarrow> ssm_state \<Rightarrow> device \<times> ssm_request" where
  "ssm_handler T self (Enroll s) = egismoc_enroll_run_state T self s"
| "ssm_handler T self (Identify s) = egismoc_identify_run_state T self s"
| "ssm_handler T self (Clear_storage s) = egismoc_clear_storage_run_state T self s"
| "ssm_handler T self (List s) = egismoc_list_run_state T self s"
| "ssm_handler T self (Delete s) = egismoc_delete_run_state T self s"

text \<open>\<^verbatim>\<open>egismoc_task_ssm_done\<close>, the completion callback of the task machines. It leaves
  \<open>enrolled_num\<close> as it is.\<close>

definition egismoc_task_ssm_done :: "device \<Rightarrow> fp_error option \<Rightarrow> device" where
  "egismoc_task_ssm_done self error =
     (let self = self\<lparr>task_ssm := None, enrolled_ids := None\<rparr>
      in case error of Some e \<Rightarrow> emit (Action_error e) self | None \<Rightarrow> self)"

subsection \<open>The sequential state machine of the framework\<close>

text \<open>
  \<^verbatim>\<open>fpi-ssm.c\<close> of libfprint is not among the sources. The spec has a machine run "an ordered
  sequence of named steps", advanced by its handler or by a callback, and has a failure
  terminate the operation; the definitions of this subsection follow it.
\<close>

text \<open>Modelled from the spec: the position of a state in the enumeration of its machine, in
  the order of the steps of section 4.E, and the state that follows it.\<close>

fun enroll_state_index :: "enroll_state \<Rightarrow> nat" where
  "enroll_state_index ENROLL_GET_ENROLLED_IDS = 0"
| "enroll_state_index ENROLL_CHECK_ENROLLED_NUM = 1"
| "enroll_state_index ENROLL_SENSOR_RESET = 2"
| "enroll_state_index ENROLL_SENSOR_ENROLL = 3"
| "enroll_state_index ENROLL_WAIT_FINGER = 4"
| "enroll_state_index ENROLL_SENSOR_CHECK = 5"
| "enroll_state_index ENROLL_CHECK = 6"
| "enroll_state_index ENROLL_START = 7"
| "enroll_state_index ENROLL_CAPTURE_SENSOR_RESET = 8"
| "enroll_state_index ENROLL_CAPTURE_SENSOR_START_CAPTURE = 9"
| "enroll_state_index ENROLL_CAPTURE_WAIT_FINGER = 10"
| "enroll_state_index ENROLL_CAPTURE_READ_RESPONSE = 11"
| "enroll_state_index ENROLL_COMMIT_START = 12"
| "enroll_state_index ENROLL_COMMIT = 13"
| "enroll_state_index ENROLL_COMMIT_SENSOR_RESET = 14"
| "enroll_state_index ENROLL_COMPLETE = 15"

fun enroll_state_next :: "enroll_state \<Rightarrow> enroll_state option" where
  "enroll_state_next ENROLL_GET_ENROLLED_IDS = Some ENROLL_CHECK_ENROLLED_NUM"
| "enroll_state_next ENROLL_CHECK_ENROLLED_NUM = Some ENROLL_SENSOR_RESET"
| "enroll_state_next ENROLL_SENSOR_RESET = Some ENROLL_SENSOR_ENROLL"
| "enroll_state_next ENROLL_SENSOR_ENROLL = Some ENROLL_WAIT_FINGER"
| "enroll_state_next ENROLL_WAIT_FINGER = Some ENROLL_SENSOR_CHECK"
| "enroll_state_next ENROLL_SENSOR_CHECK = Some ENROLL_CHECK"
| "enroll_state_next ENROLL_CHECK = Some ENROLL_START"
| "enroll_state_next ENROLL_START = Some ENROLL_CAPTURE_SENSOR_RESET"
| "enroll_state_next ENROLL_CAPTURE_SENSOR_RESET = Some ENROLL_CAPTURE_SENSOR_START_CAPTURE"
| "enroll_state_next ENROLL_CAPTURE_SENSOR_START_CAPTURE = Some ENROLL_CAPTURE_WAIT_FINGER"
| "enroll_state_next ENROLL_CAPTURE_WAIT_FINGER = Some ENROLL_CAPTURE_READ_RESPONSE"
| "enroll_state_next ENROLL_CAPTURE_READ_RESPONSE = Some ENROLL_COMMIT_START"
| "enroll_state_next ENROLL_COMMIT_START = Some ENROLL_COMMIT"
| "enroll_state_next ENROLL_COMMIT = Some ENROLL_COMMIT_SENSOR_RESET"
| "enroll_state_next ENROLL_COMMIT_SENSOR_RESET = Some ENROLL_COMPLETE"
| "enroll_state_next ENROLL_COMPLETE = None"

fun identify_state_index :: "identify_state \<Rightarrow> nat" where
  "identify_state_index IDENTIFY_GET_ENROLLED_IDS = 0"
| "identify_state_index IDENTIFY_CHECK_ENROLLED_NUM = 1"
| "identify_state_index IDENTIFY_SENSOR_RESET = 2"
| "identify_state_index IDENTIFY_SENSOR_IDENTIFY = 3"
| "identify_state_index IDENTIFY_WAIT_FINGER = 4"
| "identify_state_index IDENTIFY_SENSOR_CHECK = 5"
| "identify_state_index IDENTIFY_CHECK = 6"
| "identify_state_index IDENTIFY_COMPLETE_SENSOR_RESET = 7"
| "identify_state_index IDENTIFY_COMPLETE = 8"

fun identify_state_next :: "identify_state \<Rightarrow> identify_state option" where
  "identify_state_next IDENTIFY_GET_ENROLLED_IDS = Some IDENTIFY_CHECK_ENROLLED_NUM"
| "identify_state_next IDENTIFY_CHECK_ENROLLED_NUM = Some IDENTIFY_SENSOR_RESET"
| "identify_state_next IDENTIFY_SENSOR_RESET = Some IDENTIFY_SENSOR_IDENTIFY"
| "identify_state_next IDENTIFY_SENSOR_IDENTIFY = Some IDENTIFY_WAIT_FINGER"
| "identify_state_next IDENTIFY_WAIT_FINGER = Some IDENTIFY_SENSOR_CHECK"
| "identify_state_next IDENTIFY_SENSOR_CHECK = Some IDENTIFY_CHECK"
| "identify_state_next IDENTIFY_CHECK = Some IDENTIFY_COMPLETE_SENSOR_RESET"
| "identify_state_next IDENTIFY_COMPLETE_SENSOR_RESET = Some IDENTIFY_COMPLETE"
| "identify_state_next IDENTIFY_COMPLETE = None"

fun clear_storage_state_index :: "clear_storage_state \<Rightarrow> nat" where
  "clear_storage_state_index CLEAR_STORAGE_GET_ENROLLED_IDS_BEFORE = 0"
| "clear_storage_state_index CLEAR_STORAGE_CLEAR = 1"
| "clear_storage_state_index CLEAR_STORAGE_GET_ENROLLED_IDS_AFTER = 2"
| "clear_storage_state_index CLEAR_STORAGE_COMPLETE = 3"

fun clear_storage_state_next :: "clear_storage_state \<Rightarrow> clear_storage_state option" where
  "clear_storage_state_next CLEAR_STORAGE_GET_ENROLLED_IDS_BEFORE = Some CLEAR_STORAGE_CLEAR"
| "clear_storage_state_next CLEAR_STORAGE_CLEAR = Some CLEAR_STORAGE_GET_ENROLLED_IDS_AFTER"
| "clear_storage_state_next CLEAR_STORAGE_GET_ENROLLED_IDS_AFTER = Some CLEAR_STORAGE_COMPLETE"
| "clear_storage_state_next CLEAR_STORAGE_COMPLETE = None"

fun list_state_index :: "list_state \<Rightarrow> nat" where
  "list_state_index LIST_GET_ENROLLED_IDS = 0"
| "list_state_index LIST_RETURN_ENROLLED_PRINTS = 1"

fun list_state_next :: "list_state \<Rightarrow> list_state option" where
  "list_state_next LIST_GET_ENROLLED_IDS = Some LIST_RETURN_ENROLLED_PRINTS"
| "list_state_next LIST_RETURN_ENROLLED_PRINTS = None"

fun delete_state_index :: "delete_state \<Rightarrow> nat" where
  "delete_state_index DELETE_GET_ENROLLED_IDS = 0"
| "delete_state_index DELETE_DELETE = 1"

fun delete_state_next :: "delete_state \<Rightarrow> delete_state option" where
  "delete_state_next DELETE_GET_ENROLLED_IDS = Some DELETE_DELETE"
| "delete_state_next DELETE_DELETE = None"

fun ssm_state_index :: "ssm_state \<Rightarrow> nat" where
  "ssm_state_index (Enroll s) = enroll_state_index s"
| "ssm_state_index (Identify s) = identify_state_index s"
| "ssm_state_index (Clear_storage s) = clear_storage_state_index s"
| "ssm_state_index (List s) = list_state_index s"
| "ssm_state_index (Delete s) = delete_state_index s"

fun ssm_state_next :: "ssm_state \<Rightarrow> ssm_state option" where
  "ssm_state_next (Enroll s) = map_option Enroll (enroll_state_next s)"
| "ssm_state_next (Identify s) = map_option Identify (identify_state_next s)"
| "ssm_state_next (Clear_storage s) = map_option Clear_storage (clear_storage_state_next s)"
| "ssm_state_next (List s) = map_option List (list_state_next s)"
| "ssm_state_next (Delete s) = map_option Delete (delete_state_next s)"

text \<open>Modelled from the spec: the machine calls the handler for its current state \<open>s\<close> and carries
  out what the handler asked for. \<^verbatim>\<open>fpi_ssm_next_state\<close> runs the handler of the next state, or
  completes the machine after the last state; completing and failing call the completion
  callback of the machine, which is \<^verbatim>\<open>egismoc_task_ssm_done\<close> for the task machines.
\<close>

function fpi_ssm_call_handler :: "egismoc_tables \<Rightarrow> device \<Rightarrow> ssm_state \<Rightarrow> device" where
  "fpi_ssm_call_handler T self s =
     (case ssm_handler T (self\<lparr>task_ssm := Some s\<rparr>) s of
        (self', SSM_RETURN) \<Rightarrow> self'
      | (self', SSM_NEXT_STATE) \<Rightarrow>
          (case ssm_state_next s of
             None \<Rightarrow> egismoc_task_ssm_done self' None
           | Some s' \<Rightarrow> fpi_ssm_call_handler T self' s')
      | (self', SSM_MARK_FAILED e) \<Rightarrow> egismoc_task_ssm_done self' (Some e)
      | (self', SSM_MARK_COMPLETED) \<Rightarrow> egismoc_task_ssm_done self' None)"
  by pat_completeness auto
termination
proof (relation "measure (\<lambda>(T, self, s). 16 - ssm_state_index s)")
  show "wf (measure (\<lambda>(T, self, s). 16 - ssm_state_index s))" by simp
next
  fix T self s x1 x2 and s' :: ssm_state
  assume "ssm_state_next s = Some s'"
  then have "ssm_state_index s' = Suc (ssm_state_index s) \<and> ssm_state_index s' < 16"
  proof (cases s)
    case (Enroll e)
    with \<open>ssm_state_next s = Some s'\<close> show ?thesis by (cases e) auto
  next
    case (Identify i)
    with \<open>ssm_state_next s = Some s'\<close> show ?thesis by (cases i) auto
  next
    case (Clear_storage c)
    with \<open>ssm_state_next s = Some s'\<close> show ?thesis by (cases c) auto
  next
    case (List l)
    with \<open>ssm_state_next s = Some s'\<close> show ?thesis by (cases l) auto
  next
    case (Delete d)
    with \<open>ssm_state_next s = Some s'\<close> show ?thesis by (cases d) auto
  qed
  then have "16 - ssm_state_index s' < 16 - ssm_state_index s" by linarith
  then show "((T, x1, s'), T, self, s) \<in> measure (\<lambda>(T, self, s). 16 - ssm_state_index s)"
    by simp
qed

declare fpi_ssm_call_handler.simps [simp del]

text \<open>Modelled from the spec: \<^verbatim>\<open>fpi_ssm_start\<close> runs the handler of the first state; the device
  points to the machine from then on.\<close>

definition fpi_ssm_start :: "egismoc_tables \<Rightarrow> device \<Rightarrow> ssm_state \<Rightarrow> device" where
  "fpi_ssm_start T self s = fpi_ssm_call_handler T self s"

text \<open>Modelled from the spec: \<^verbatim>\<open>fpi_ssm_jump_to_state\<close> on the task machine of the device sets
  the state and runs its handler; on no machine it does nothing.\<close>

definition fpi_ssm_jump_to_state :: "egismoc_tables \<Rightarrow> device \<Rightarrow> ssm_state \<Rightarrow> device" where
  "fpi_ssm_jump_to_state T self s =
     (case task_ssm self of None \<Rightarrow> self | Some _ \<Rightarrow> fpi_ssm_call_handler T self s)"

text \<open>Modelled from the spec: \<^verbatim>\<open>fpi_ssm_next_state\<close> on the task machine of the device, as called
  from a callback.\<close>

definition fpi_ssm_next_state :: "egismoc_tables \<Rightarrow> device \<Rightarrow> device" where
  "fpi_ssm_next_state T self =
     (case task_ssm self of
        None \<Rightarrow> self
      | Some s \<Rightarrow>
          (case ssm_state_next s of
             None \<Rightarrow> egismoc_task_ssm_done self None
           | Some s' \<Rightarrow> fpi_ssm_call_handler T self s'))"

text \<open>Modelled from the spec: \<^verbatim>\<open>fpi_ssm_mark_failed\<close> on the task machine of the device, as called
  from a callback: the machine ends and its completion callback gets the error.\<close>

definition fpi_ssm_mark_failed :: "device \<Rightarrow> fp_error \<Rightarrow> device" where
  "fpi_ssm_mark_failed self e =
     (case task_ssm self of None \<Rightarrow> self | Some _ \<Rightarrow> egismoc_task_ssm_done self (Some e))"

subsection \<open>Callbacks\<close>

definition egismoc_finger_on_sensor_cb ::
  "egismoc_tables \<Rightarrow> device \<Rightarrow> fp_error option \<Rightarrow> device" where
  "egismoc_finger_on_sensor_cb T self error =
     (let self = emit (Report_finger_status FP_FINGER_STATUS_PRESENT) self
      in case error of
           Some e \<Rightarrow> fpi_ssm_mark_failed self e
         | None \<Rightarrow> fpi_ssm_next_state T self)"

definition egismoc_task_ssm_next_state_cb ::
  "egismoc_tables \<Rightarrow> device \<Rightarrow> guchar list \<Rightarrow> nat \<Rightarrow> fp_error option \<Rightarrow> device" where
  "egismoc_task_ssm_next_state_cb T self buffer_in length_in error =
     (case error of
        Some e \<Rightarrow> fpi_ssm_mark_failed self e
      | None \<Rightarrow> fpi_ssm_next_state T self)"

text \<open>
  \<^verbatim>\<open>egismoc_list_cb\<close>. The inner loop copies the bytes of one identifier, the outer loop
  appends the identifiers to \<open>enrolled_ids\<close>. \<open>list_cb_fill\<close> is the callback up to its
  last statement; the last statement advances the task machine, which runs the handlers of
  the next states before the callback returns.
\<close>

definition list_cb_print_id :: "guchar list \<Rightarrow> nat \<Rightarrow> guchar list" where
  "list_cb_print_id buffer_in print_num =
     map (\<lambda>buffer_in_pos. buffer_in ! buffer_in_pos)
       [14 + print_num * EGISMOC_FINGERPRINT_DATA_SIZE
        ..< 14 + print_num * EGISMOC_FINGERPRINT_DATA_SIZE + EGISMOC_FINGERPRINT_DATA_SIZE]"

definition g_ptr_array_add :: "'a list option \<Rightarrow> 'a \<Rightarrow> 'a list option" where
  "g_ptr_array_add array x = map_option (\<lambda>xs. xs @ [x]) array"

definition list_cb_fill :: "device \<Rightarrow> guchar list \<Rightarrow> nat \<Rightarrow> device" where
  "list_cb_fill self buffer_in length_in =
     (if length_in < 16 + EGISMOC_FINGERPRINT_DATA_SIZE
      then self\<lparr>enrolled_num := 0\<rparr>
      else
        (let self = self\<lparr>enrolled_num := int ((length_in - 16) div EGISMOC_FINGERPRINT_DATA_SIZE)\<rparr>
         in fold (\<lambda>print_num self.
                    self\<lparr>enrolled_ids :=
                      g_ptr_array_add (enrolled_ids self) (list_cb_print_id buffer_in print_num)\<rparr>)
              [0..<nat (enrolled_num self)] self))"

definition egismoc_list_cb ::
  "egismoc_tables \<Rightarrow> device \<Rightarrow> guchar list \<Rightarrow> nat \<Rightarrow> fp_error option \<Rightarrow> device" where
  "egismoc_list_cb T self buffer_in length_in error =
     (case error of
        Some e \<Rightarrow> fpi_ssm_mark_failed self e
      | None \<Rightarrow>
          (let self = list_cb_fill self buffer_in length_in
           in if task_ssm self \<noteq> None then fpi_ssm_next_state T self else self))"

definition egismoc_clear_storage_cb ::
  "egismoc_tables \<Rightarrow> device \<Rightarrow> guchar list \<Rightarrow> nat \<Rightarrow> fp_error option \<Rightarrow> device" where
  "egismoc_clear_storage_cb T self buffer_in length_in error =
     (case error of
        Some e \<Rightarrow> emit (Clear_storage_complete (Some e)) self
      | None \<Rightarrow>
          if egismoc_validate_response_prefix buffer_in length_in (rsp_delete_success_prefix T)
          then fpi_ssm_next_state T self
          else emit (Clear_storage_complete (Some FP_DEVICE_ERROR_PROTO)) self)"

definition egismoc_delete_cb ::
  "egismoc_tables \<Rightarrow> device \<Rightarrow> guchar list \<Rightarrow> nat \<Rightarrow> fp_error option \<Rightarrow> device" where
  "egismoc_delete_cb T self buffer_in length_in error =
     (case error of
        Some e \<Rightarrow> emit (Delete_complete (Some e)) self
      | None \<Rightarrow>
          if egismoc_validate_response_prefix buffer_in length_in (rsp_delete_success_prefix T)
          then fpi_ssm_next_state T (emit (Delete_complete None) self)
          else emit (Delete_complete (Some FP_DEVICE_ERROR_PROTO)) self)"

definition egismoc_read_capture_cb ::
  "egismoc_tables \<Rightarrow> device \<Rightarrow> guchar list \<Rightarrow> nat \<Rightarrow> fp_error option \<Rightarrow> device" where
  "egismoc_read_capture_cb T self buffer_in length_in error =
     (case error of
        Some e \<Rightarrow> fpi_ssm_mark_failed self e
      | None \<Rightarrow>
          (let self =
             (if egismoc_validate_response_prefix buffer_in length_in (rsp_read_success_prefix T)
                 \<and> egismoc_validate_response_suffix buffer_in length_in (rsp_read_success_suffix T)
              then egismoc_enroll_status_report self ENROLL_STATUS_PARTIAL_OK None
              else
                (let error =
                   (if egismoc_validate_response_prefix buffer_in length_in
                         (rsp_read_offcenter_prefix T)
                       \<and> egismoc_validate_response_suffix buffer_in length_in
                           (rsp_read_offcenter_suffix T)
                    then FP_DEVICE_RETRY_CENTER_FINGER
                    else if egismoc_validate_response_prefix buffer_in length_in
                              (rsp_read_dirty_prefix T)
                    then FP_DEVICE_RETRY_REMOVE_FINGER
                    else FP_DEVICE_RETRY_REMOVE_FINGER)
                 in egismoc_enroll_status_report self ENROLL_STATUS_RETRY (Some error)))
           in if stage self = EGISMOC_ENROLL_TIMES T
              then fpi_ssm_next_state T self
              else fpi_ssm_jump_to_state T self (Enroll ENROLL_CAPTURE_SENSOR_RESET)))"

definition egismoc_enroll_check_cb ::
  "egismoc_tables \<Rightarrow> device \<Rightarrow> guchar list \<Rightarrow> nat \<Rightarrow> fp_error option \<Rightarrow> device" where
  "egismoc_enroll_check_cb T self buffer_in length_in error =
     (case error of
        Some e \<Rightarrow> fpi_ssm_mark_failed self e
      | None \<Rightarrow>
          if egismoc_validate_response_prefix buffer_in length_in
               (rsp_check_not_yet_enrolled_prefix T)
          then fpi_ssm_next_state T self
          else egismoc_enroll_status_report self ENROLL_STATUS_DUPLICATE
                 (Some FP_DEVICE_ERROR_DATA_DUPLICATE))"

text \<open>
  \<^verbatim>\<open>egismoc_identify_check_cb\<close>. A print built from an identifier is represented by the
  identifier, and \<^verbatim>\<open>fp_print_equal\<close> by the equality of identifiers; the gallery entry
  reported is the first equal one.
\<close>

definition egismoc_identify_check_cb ::
  "egismoc_tables \<Rightarrow> device \<Rightarrow> guchar list \<Rightarrow> nat \<Rightarrow> fp_error option \<Rightarrow> device" where
  "egismoc_identify_check_cb T self buffer_in length_in error =
     (case error of
        Some e \<Rightarrow> fpi_ssm_mark_failed self e
      | None \<Rightarrow>
          if egismoc_validate_response_prefix buffer_in length_in (rsp_identify_match_prefix T)
             \<and> egismoc_validate_response_suffix buffer_in length_in (rsp_identify_match_suffix T)
          then
            (let device_print_id =
                   map (\<lambda>i. buffer_in ! (EGISMOC_IDENTIFY_RESPONSE_PRINT_ID_OFFSET + i))
                     [0..<EGISMOC_FINGERPRINT_DATA_SIZE]
             in if current_action self = FPI_DEVICE_ACTION_IDENTIFY
                then fpi_ssm_next_state T
                       (emit (Identify_report (find (\<lambda>p. p = device_print_id) (identify_data self))
                                (Some device_print_id)) self)
                else fpi_ssm_next_state T
                       (emit (Verify_report
                                (if verify_data self = device_print_id
                                 then FPI_MATCH_SUCCESS else FPI_MATCH_FAIL)
                                (Some device_print_id)) self))
          else if egismoc_validate_response_prefix buffer_in length_in
                    (rsp_identify_notmatch_prefix T)
          then
            (if current_action self = FPI_DEVICE_ACTION_VERIFY
             then fpi_ssm_next_state T (emit (Verify_report FPI_MATCH_FAIL None) self)
             else fpi_ssm_next_state T (emit (Identify_report None None) self))
          else fpi_ssm_mark_failed self FP_DEVICE_ERROR_PROTO)"

subsection \<open>Operations and the completion of transfers\<close>

definition egismoc_enroll :: "egismoc_tables \<Rightarrow> device \<Rightarrow> device" where
  "egismoc_enroll T self = fpi_ssm_start T (self\<lparr>stage := 0\<rparr>) (Enroll ENROLL_GET_ENROLLED_IDS)"

definition egismoc_identify_verify :: "egismoc_tables \<Rightarrow> device \<Rightarrow> device" where
  "egismoc_identify_verify T self = fpi_ssm_start T self (Identify IDENTIFY_GET_ENROLLED_IDS)"

definition egismoc_clear_storage :: "egismoc_tables \<Rightarrow> device \<Rightarrow> device" where
  "egismoc_clear_storage T self =
     (if enrolled_num self = 0
      then emit (Clear_storage_complete (Some FP_DEVICE_ERROR_DATA_NOT_FOUND)) self
      else fpi_ssm_start T self (Clear_storage CLEAR_STORAGE_GET_ENROLLED_IDS_BEFORE))"


text \<open>The print to delete is the data of the delete machine, which \<^verbatim>\<open>DELETE_DELETE\<close> reads.\<close>

definition egismoc_delete :: "egismoc_tables \<Rightarrow> device \<Rightarrow> device" where
  "egismoc_delete T self = fpi_ssm_start T self (Delete DELETE_GET_ENROLLED_IDS)"

text \<open>
  What the USB layer delivers: the failure of the bulk-OUT transfer of a command, the
  completion of the bulk-IN transfer that follows a successful bulk-OUT (with an error, or
  with the receive buffer and the number of bytes received), and the completion of the
  interrupt transfer.
\<close>

datatype usb_event =
    Bulk_out_failed fp_error
  | Bulk_in "fp_error option" "guchar list" nat
  | Interrupt_in "fp_error option"

fun call_callback ::
  "egismoc_tables \<Rightarrow> device \<Rightarrow> callback \<Rightarrow> guchar list \<times> nat \<times> fp_error option \<Rightarrow> device" where
  "call_callback T self TASK_SSM_NEXT_STATE_CB (buffer_in, length_in, error) =
     egismoc_task_ssm_next_state_cb T self buffer_in length_in error"
| "call_callback T self LIST_CB (buffer_in, length_in, error) =
     egismoc_list_cb T self buffer_in length_in error"
| "call_callback T self CLEAR_STORAGE_CB (buffer_in, length_in, error) =
     egismoc_clear_storage_cb T self buffer_in length_in error"
| "call_callback T self DELETE_CB (buffer_in, length_in, error) =
     egismoc_delete_cb T self buffer_in length_in error"
| "call_callback T self ENROLL_CHECK_CB (buffer_in, length_in, error) =
     egismoc_enroll_check_cb T self buffer_in length_in error"
| "call_callback T self READ_CAPTURE_CB (buffer_in, length_in, error) =
     egismoc_read_capture_cb T self buffer_in length_in error"
| "call_callback T self IDENTIFY_CHECK_CB (buffer_in, length_in, error) =
     egismoc_identify_check_cb T self buffer_in length_in error"

text \<open>One completion: the transfer waited for is taken off the device and its callback
  runs. A completion that no submitted transfer matches does not occur and changes nothing.\<close>

fun usb_complete :: "egismoc_tables \<Rightarrow> device \<Rightarrow> usb_event \<Rightarrow> device" where
  "usb_complete T self ev =
     (case (pending self, ev) of
        (Some (Cmd_transfer cb), Bulk_out_failed e) \<Rightarrow>
          call_callback T (self\<lparr>pending := None\<rparr>) cb ([], 0, Some e)
      | (Some (Cmd_transfer cb), Bulk_in error buffer actual_length) \<Rightarrow>
          call_callback T (self\<lparr>pending := None\<rparr>) cb
            (egismoc_cmd_receive_cb error buffer actual_length)
      | (Some Interrupt_transfer, Interrupt_in error) \<Rightarrow>
          egismoc_finger_on_sensor_cb T (self\<lparr>pending := None\<rparr>) error
      | _ \<Rightarrow> self)"

declare usb_complete.simps [simp del]

definition run :: "egismoc_tables \<Rightarrow> device \<Rightarrow> usb_event list \<Rightarrow> device" where
  "run T self evs = foldl (usb_complete T) self evs"

section \<open>The claims in the words of the spec\<close>

text \<open>A size field as the spec words it for the check command: "encoded as one byte if
  N \<le> 6, else as 01 followed by" the second byte.\<close>

definition spec_check_size_field :: "nat \<Rightarrow> nat \<Rightarrow> nat \<Rightarrow> guchar list" where
  "spec_check_size_field N one_byte second_byte =
     (if N \<le> 6 then [of_nat one_byte] else [0x01, of_nat second_byte])"

definition spec_check_body :: "guchar list \<Rightarrow> guchar list \<Rightarrow> guchar list list \<Rightarrow> guchar list" where
  "spec_check_body check_prefix check_suffix R =
     (let N = length R
      in [0x00, 0x00]
         @ spec_check_size_field N (((N + 1) * 0x20) + 0x09) (((N - 7) * 0x20) + 0x09)
         @ check_prefix
         @ spec_check_size_field N ((N + 1) * 0x20) ((N - 7) * 0x20)
         @ replicate 32 0x00 @ concat R @ check_suffix)"

text \<open>A two-byte big-endian size field.\<close>

definition size_field :: "nat \<Rightarrow> guchar list" where
  "size_field n = [of_nat (n div 256), of_nat (n mod 256)]"

definition spec_delete_body :: "guchar list \<Rightarrow> guchar list list \<Rightarrow> guchar list" where
  "spec_delete_body delete_prefix ids =
     (let K = length ids
      in [0x00, 0x00] @ size_field ((K * 0x20) + 0x07) @ delete_prefix
         @ size_field (K * 0x20) @ concat ids)"




section \<open>Values for the examples\<close>

text \<open>
  The instance after \<^verbatim>\<open>fpi_device_egismoc_init\<close>, which sets no field: the object is
  zero-filled, no machine runs and nothing has been reported.
\<close>

definition fpi_device_egismoc_init :: device where
  "fpi_device_egismoc_init =
     \<lparr>enrolled_num = 0, enrolled_ids = None, task_ssm = None, pending = None, stage = 0,
      current_action = FPI_DEVICE_ACTION_IDENTIFY, identify_data = [], verify_data = [],
      delete_data = \<lparr>description = [], fpi_data = Variant_other\<rparr>,
      generated_user_id = [], trace = []\<rparr>"

text \<open>
  Tables for the examples. The byte tables of \<^verbatim>\<open>egismoc.h\<close> are not among the sources; the
  theorems hold for all tables, the examples need some.
\<close>

definition example_tables :: egismoc_tables where
  "example_tables =
     \<lparr>cmd_delete_prefix = [0x18, 0x04],
      cmd_check_prefix = [0x17, 0x03],
      cmd_check_suffix = [0x40],
      cmd_new_print_prefix = [0x16, 0x05],
      rsp_delete_success_prefix = [0xD0],
      rsp_read_success_prefix = [0xA0],
      rsp_read_success_suffix = [0x90, 0x00],
      rsp_read_offcenter_prefix = [0xA1],
      rsp_read_offcenter_suffix = [0x64, 0x91],
      rsp_read_dirty_prefix = [0xA2],
      rsp_check_not_yet_enrolled_prefix = [0xC0],
      rsp_identify_match_prefix = [0xB0],
      rsp_identify_match_suffix = [0x90, 0x00],
      rsp_identify_notmatch_prefix = [0xB1],
      EGISMOC_ENROLL_TIMES = 2\<rparr>"

section \<open>Auxiliary notions for the proofs\<close>

text \<open>The sum of the 16-bit words of a buffer as a natural number, without wrap-around.\<close>

definition shorts_total :: "guchar list \<Rightarrow> nat" where
  "shorts_total v = sum_list (map unat (value_bigendian_shorts v))"

text \<open>The two size bytes as \<^verbatim>\<open>egismoc_get_check_cmd\<close> writes them, for the count \<open>n\<close> and
  the added constant \<open>a\<close>.\<close>

definition code_sf :: "int \<Rightarrow> int \<Rightarrow> guchar list" where
  "code_sf n a = (if n > 6 then [0x01, word_of_int (((n - 7) * 0x20) + a)]
                  else [0x00, word_of_int (((n + 1) * 0x20) + a)])"

text \<open>The two size bytes as \<^verbatim>\<open>egismoc_get_delete_cmd\<close> writes them.\<close>

definition delete_sf :: "int \<Rightarrow> int \<Rightarrow> guchar list" where
  "delete_sf k a = (if k > 7 then [0x01, word_of_int (((k - 8) * 0x20) + a)]
                    else [0x00, word_of_int ((k * 0x20) + a)])"



text \<open>The states whose handler calls \<^verbatim>\<open>egismoc_fill_enrolled_ids\<close>, the one place where the
  list command is submitted, with \<^verbatim>\<open>egismoc_list_cb\<close> as its callback.\<close>

fun fills_enrolled_ids :: "ssm_state \<Rightarrow> bool" where
  "fills_enrolled_ids (Enroll s) = (s = ENROLL_GET_ENROLLED_IDS)"
| "fills_enrolled_ids (Identify s) = (s = IDENTIFY_GET_ENROLLED_IDS)"
| "fills_enrolled_ids (Clear_storage s) =
     (s = CLEAR_STORAGE_GET_ENROLLED_IDS_BEFORE \<or> s = CLEAR_STORAGE_GET_ENROLLED_IDS_AFTER)"
| "fills_enrolled_ids (List s) = (s = LIST_GET_ENROLLED_IDS)"
| "fills_enrolled_ids (Delete s) = (s = DELETE_GET_ENROLLED_IDS)"

section \<open>Properties of the buffers\<close>

lemma map_nth_upt:
  assumes "a + n \<le> length xs"
  shows "map (\<lambda>i. xs ! i) [a..<a + n] = take n (drop a xs)"
proof (rule nth_equalityI)
  show "length (map (\<lambda>i. xs ! i) [a..<a + n]) = length (take n (drop a xs))"
    using assms by simp
next
  fix i
  assume "i < length (map (\<lambda>i. xs ! i) [a..<a + n])"
  then have i: "i < n" by simp
  then show "map (\<lambda>i. xs ! i) [a..<a + n] ! i = take n (drop a xs) ! i"
    using assms by simp
qed

text \<open>Inside the object at \<open>src\<close>, \<^verbatim>\<open>memcpy\<close> copies its first \<open>n\<close> bytes.\<close>

lemma memcpy_take:
  assumes "n \<le> length src"
  shows "memcpy dst pos src n = take pos dst @ take n src @ drop (pos + n) dst"
  using map_nth_upt [of 0 n src] assms by (simp add: memcpy_def)

lemma length_memcpy:
  assumes "pos + n \<le> length dst"
  shows "length (memcpy dst pos src n) = length dst"
  using assms by (simp add: memcpy_def)

section \<open>Properties of the frame codec\<close>

lemma split_hi: "unat (ucast (drop_bit 8 (c :: 16 word)) :: 8 word) = unat c div 256"
proof -
  have "unat c < 65536" using unsigned_less [of c, where ?'a = nat] by simp
  then have "unat c div 256 < 256" by simp
  then show ?thesis
    by (simp add: unsigned_ucast_eq take_bit_eq_mod unat_drop_bit_eq drop_bit_eq_div unat_div)
qed

lemma split_hi2: "unat (drop_bit 8 (c :: 16 word)) mod 256 = unat c div 256"
  using split_hi [of c] by (simp only: unsigned_ucast_eq take_bit_eq_mod) simp

lemma short_unat: "unat (push_bit 8 (ucast (hi::8 word)) OR (0x00ff AND ucast (lo::8 word)) :: 16 word) = unat lo + 256 * unat hi"
proof -
  have m: "(0x00ff :: 16 word) = mask 8" by (simp add: mask_numeral)
  have lo: "(0x00ff AND ucast lo :: 16 word) = ucast lo"
    unfolding m by (rule bit_word_eqI) (auto simp: bit_simps dest: bit_imp_le_length)
  have "(push_bit 8 (ucast hi) OR ucast lo :: 16 word) = word_cat hi lo"
    by (simp add: word_cat_eq_push_bit_or)
  also have "\<dots> = push_bit 8 (ucast hi) + ucast lo"
    by (simp add: word_cat_eq)
  also have "\<dots> = word_of_nat (unat lo + 256 * unat hi)"
    by (simp add: push_bit_eq_mult)
  finally have e: "(push_bit 8 (ucast hi) OR (0x00ff AND ucast lo) :: 16 word) = word_of_nat (unat lo + 256 * unat hi)"
    by (simp only: lo)
  have "unat lo < 256" "unat hi < 256"
    using unsigned_less [of lo, where ?'a = nat] unsigned_less [of hi, where ?'a = nat] by simp_all
  then have "unat lo + 256 * unat hi < 65536" by simp
  then have b: "(unat lo + 256 * unat hi) mod 2 ^ LENGTH(16) = unat lo + 256 * unat hi" by simp
  have "unat (word_of_nat (unat lo + 256 * unat hi) :: 16 word)
          = (unat lo + 256 * unat hi) mod 2 ^ LENGTH(16)"
    by (rule unat_of_nat)
  then show ?thesis by (simp only: e b)
qed

lemma split_lo: "unat (ucast (c :: 16 word) :: 8 word) = unat c mod 256"
  by (simp add: unsigned_ucast_eq take_bit_eq_mod)

lemma unat_check_short: "unat (check_short v) = 65535 - unat (sum_shorts v) mod 65535"
proof -
  let ?s = "sum_shorts v"
  have m: "unat (?s mod 0xffff) = unat ?s mod 65535" by (simp add: unat_mod)
  then have lt: "unat (?s mod 0xffff) < 65535" by simp
  have le: "?s mod 0xffff \<le> 0xffff" using lt by (simp add: word_le_nat_alt)
  have "unat (0xffff - ?s mod 0xffff) = 65535 - unat ?s mod 65535"
    using unat_sub [OF le] m by simp
  then show ?thesis
    by (simp add: check_short_def unsigned_ucast_eq take_bit_eq_mod)
qed

lemma unat_sum_shorts_loop:
  "unat (sum_shorts_loop ws s) = (unat s + sum_list (map unat ws)) mod 2 ^ 64"
proof (induction ws arbitrary: s)
  case Nil
  show ?case using unsigned_less [of s, where ?'a = nat] by simp
next
  case (Cons w ws)
  have "unat (s + ucast w) = (unat s + unat w) mod 2 ^ 64"
    by (simp add: unat_word_ariths unsigned_ucast_eq take_bit_eq_mod mod_add_right_eq)
  then show ?case
    by (simp add: Cons.IH mod_add_left_eq add.assoc)
qed

lemma shorts_total_le: "shorts_total v \<le> 65535 * length v"
proof (induction v rule: value_bigendian_shorts.induct)
  case (1 lo hi rest)
  have "unat lo < 256" "unat hi < 256"
    using unsigned_less [of lo, where ?'a = nat] unsigned_less [of hi, where ?'a = nat] by simp_all
  with 1 show ?case by (simp add: shorts_total_def short_unat)
next
  case (2 lo)
  have "unat lo < 256" using unsigned_less [of lo, where ?'a = nat] by simp
  then show ?case using short_unat [of 0 lo] by (simp add: shorts_total_def)
next
  case 3
  show ?case by (simp add: shorts_total_def)
qed

lemma unat_sum_shorts:
  assumes "length v < 2 ^ 31"
  shows "unat (sum_shorts v) = shorts_total v"
proof -
  have "shorts_total v \<le> 65535 * length v" by (rule shorts_total_le)
  also have "\<dots> < 65535 * 2 ^ 31" using assms by simp
  also have "\<dots> < (2::nat) ^ 64" by simp
  finally have "shorts_total v mod 2 ^ 64 = shorts_total v" by simp
  then show ?thesis
    by (simp add: sum_shorts_def unat_sum_shorts_loop shorts_total_def)
qed

lemma shorts_total_frame:
  "shorts_total (egismoc_write_prefix @ c0 # c1 # B)
     = 39822 + (unat c0 + 256 * unat c1) + shorts_total B"
  by (simp add: shorts_total_def egismoc_write_prefix_def short_unat)

lemma get_check_bytes_2:
  "egismoc_get_check_bytes v EGISMOC_CHECK_BYTES_LENGTH
     = [ucast (check_short v), ucast (drop_bit 8 (check_short v))]"
proof -
  have "[0..<2] = [0, Suc 0]" by (simp add: upt_rec)
  then show ?thesis
    by (simp add: egismoc_get_check_bytes_def EGISMOC_CHECK_BYTES_LENGTH_def check_short_split_def)
qed

lemma compose_cmd_eq:
  "egismoc_compose_cmd B
     = egismoc_write_prefix
       @ egismoc_get_check_bytes (egismoc_write_prefix @ 0 # 0 # B) EGISMOC_CHECK_BYTES_LENGTH
       @ B"
proof -
  have r: "replicate (10 + length B) (0::guchar) = replicate 8 0 @ [0, 0] @ replicate (length B) 0"
    by (simp add: replicate_add [symmetric] numeral_eq_Suc)
  show ?thesis
    unfolding get_check_bytes_2
    by (simp add: egismoc_compose_cmd_def Let_def g_malloc0_def memcpy_take
        egismoc_write_prefix_len_def EGISMOC_CHECK_BYTES_LENGTH_def egismoc_write_prefix_def r
        get_check_bytes_2 [unfolded EGISMOC_CHECK_BYTES_LENGTH_def])
qed


lemma mod_complement:
  assumes "0 < m"
  shows "(n + (m - n mod m)) mod m = (0::nat)"
proof -
  define q r where "q = n div m" and "r = n mod m"
  have n: "n = q * m + r" by (simp add: q_def r_def)
  have r: "r < m" using assms by (simp add: r_def)
  have "n + (m - r) = (q + 1) * m" using n r by (simp add: algebra_simps)
  then have "(n + (m - r)) mod m = 0" by simp
  then show ?thesis by (simp add: r_def)
qed

lemma check_short_range: "1 \<le> unat (check_short v) \<and> unat (check_short v) \<le> 65535"
proof -
  have "unat (sum_shorts v) mod 65535 < 65535" by simp
  then show ?thesis unfolding unat_check_short by linarith
qed

lemma check_bytes_value:
  "unat (egismoc_get_check_bytes v EGISMOC_CHECK_BYTES_LENGTH ! 0)
     + 256 * unat (egismoc_get_check_bytes v EGISMOC_CHECK_BYTES_LENGTH ! 1)
   = unat (check_short v)"
proof -
  have "unat (check_short v) mod 256 + 256 * (unat (check_short v) div 256) = unat (check_short v)"
    by simp
  then show ?thesis
    by (simp only: get_check_bytes_2 nth_Cons_0 One_nat_def nth_Cons_Suc split_lo split_hi2)
qed

lemma compose_cmd_zeroed:
  "(egismoc_compose_cmd B)[8 := 0, 9 := 0] = egismoc_write_prefix @ 0 # 0 # B"
  by (simp add: compose_cmd_eq get_check_bytes_2 egismoc_write_prefix_def)

text \<open>
  Claim C1. For every body \<open>B\<close> (short enough for the \<^verbatim>\<open>int\<close> loop counter of
  \<^verbatim>\<open>egismoc_get_check_bytes\<close>), the composed command has length \<open>10 + length B\<close>; it
  starts with the 8-byte write prefix; the two bytes after the prefix, read little-endian,
  are \<open>0xFFFF\<close> minus the word sum of the frame with these two bytes zeroed, the sum taken
  modulo \<open>0xFFFF\<close>; \<open>B\<close> follows at offset 10; and the word sum of the complete frame is
  a multiple of \<open>0xFFFF\<close>.
\<close>

theorem compose_cmd_frame:
  assumes "length B + 10 < 2 ^ 31 - 1"
  shows "length (egismoc_compose_cmd B) = 10 + length B
       \<and> take 8 (egismoc_compose_cmd B) = [0x45, 0x47, 0x49, 0x53, 0x00, 0x00, 0x00, 0x01]
       \<and> unat (egismoc_compose_cmd B ! 8) + 256 * unat (egismoc_compose_cmd B ! 9)
           = 0xFFFF - unat (sum_shorts ((egismoc_compose_cmd B)[8 := 0, 9 := 0])) mod 0xFFFF
       \<and> drop 10 (egismoc_compose_cmd B) = B
       \<and> unat (sum_shorts (egismoc_compose_cmd B)) mod 0xFFFF = 0"
proof -
  let ?z = "egismoc_write_prefix @ 0 # 0 # B"
  let ?cb = "egismoc_get_check_bytes ?z EGISMOC_CHECK_BYTES_LENGTH"
  let ?c = "check_short ?z"
  have cb: "?cb = [ucast ?c, ucast (drop_bit 8 ?c)]" by (rule get_check_bytes_2)
  have frame: "egismoc_compose_cmd B = egismoc_write_prefix @ ucast ?c # ucast (drop_bit 8 ?c) # B"
    by (simp add: compose_cmd_eq cb)
  have len: "length (egismoc_compose_cmd B) = 10 + length B"
    by (simp add: frame egismoc_write_prefix_def)
  have pre: "take 8 (egismoc_compose_cmd B) = [0x45, 0x47, 0x49, 0x53, 0x00, 0x00, 0x00, 0x01]"
    by (simp add: frame egismoc_write_prefix_def)
  have body: "drop 10 (egismoc_compose_cmd B) = B"
    by (simp add: frame egismoc_write_prefix_def)
  have c8: "egismoc_compose_cmd B ! 8 = ucast ?c" and c9: "egismoc_compose_cmd B ! 9 = ucast (drop_bit 8 ?c)"
    by (simp_all add: frame egismoc_write_prefix_def)
  have val: "unat (egismoc_compose_cmd B ! 8) + 256 * unat (egismoc_compose_cmd B ! 9) = unat ?c"
    by (simp add: c8 c9 split_lo split_hi2)
  have chk: "unat (egismoc_compose_cmd B ! 8) + 256 * unat (egismoc_compose_cmd B ! 9)
           = 0xFFFF - unat (sum_shorts ((egismoc_compose_cmd B)[8 := 0, 9 := 0])) mod 0xFFFF"
    by (simp only: val compose_cmd_zeroed unat_check_short)
  have lz: "length ?z < 2 ^ 31" using assms by (simp add: egismoc_write_prefix_def)
  have lf: "length (egismoc_compose_cmd B) < 2 ^ 31" using assms by (simp add: len)
  have sz: "unat (sum_shorts ?z) = 39822 + shorts_total B"
    using unat_sum_shorts [OF lz] shorts_total_frame [of 0 0 B] by simp
  have "unat (sum_shorts (egismoc_compose_cmd B))
          = 39822 + (unat (ucast ?c :: guchar) + 256 * unat (ucast (drop_bit 8 ?c) :: guchar)) + shorts_total B"
    using unat_sum_shorts [OF lf] shorts_total_frame [of "ucast ?c" "ucast (drop_bit 8 ?c)" B]
    by (simp only: frame)
  also have "\<dots> = 39822 + unat ?c + shorts_total B"
    by (simp add: split_lo split_hi2)
  also have "\<dots> = (39822 + shorts_total B) + (65535 - (39822 + shorts_total B) mod 65535)"
    by (simp add: unat_check_short sz)
  finally have tot: "unat (sum_shorts (egismoc_compose_cmd B))
      = (39822 + shorts_total B) + (65535 - (39822 + shorts_total B) mod 65535)" .
  have zero: "unat (sum_shorts (egismoc_compose_cmd B)) mod 0xFFFF = 0"
    unfolding tot by (rule mod_complement) simp
  from len pre chk body zero show ?thesis by blast
qed

theorem compose_cmd_frame_witness:
  "length [1, 2, 3, 4, 5 :: guchar] + 10 < 2 ^ 31 - 1
   \<and> egismoc_compose_cmd [0x01, 0x02, 0x03, 0x04, 0x05]
       = [0x45, 0x47, 0x49, 0x53, 0x00, 0x00, 0x00, 0x01, 0x68, 0x5E, 0x01, 0x02, 0x03, 0x04, 0x05]
   \<and> length (egismoc_compose_cmd [1, 2, 3, 4, 5]) = 15
   \<and> take 8 (egismoc_compose_cmd [1, 2, 3, 4, 5]) = [0x45, 0x47, 0x49, 0x53, 0x00, 0x00, 0x00, 0x01]
   \<and> drop 10 (egismoc_compose_cmd [1, 2, 3, 4, 5]) = [1, 2, 3, 4, 5]
   \<and> unat (sum_shorts (egismoc_compose_cmd [1, 2, 3, 4, 5])) mod 0xFFFF = 0"
proof -
  have h: "length [1, 2, 3, 4, 5 :: guchar] + 10 < 2 ^ 31 - 1" by simp
  have c: "egismoc_compose_cmd [0x01, 0x02, 0x03, 0x04, 0x05]
       = [0x45, 0x47, 0x49, 0x53, 0x00, 0x00, 0x00, 0x01, 0x68, 0x5E, 0x01, 0x02, 0x03, 0x04, 0x05]"
    by code_simp
  from compose_cmd_frame [OF h]
  have "length (egismoc_compose_cmd [1, 2, 3, 4, 5]) = 15
   \<and> take 8 (egismoc_compose_cmd [1, 2, 3, 4, 5]) = [0x45, 0x47, 0x49, 0x53, 0x00, 0x00, 0x00, 0x01]
   \<and> drop 10 (egismoc_compose_cmd [1, 2, 3, 4, 5]) = [1, 2, 3, 4, 5]
   \<and> unat (sum_shorts (egismoc_compose_cmd [1, 2, 3, 4, 5])) mod 0xFFFF = 0"
    by simp
  with h c show ?thesis by blast
qed

text \<open>
  Claim C9. For every input buffer the check value \<open>0xFFFF - (sum mod 0xFFFF)\<close> lies between
  1 and \<open>0xFFFF\<close>; it is what the two check bytes hold, low byte first, so the check bytes
  are never both zero, in particular not in a composed command; and when the word sum
  before the check bytes are set is a multiple of \<open>0xFFFF\<close>, the check bytes are
  \<^verbatim>\<open>FF FF\<close>.
\<close>

theorem check_bytes_never_zero:
  "1 \<le> unat (check_short v) \<and> unat (check_short v) \<le> 0xFFFF
   \<and> unat (egismoc_get_check_bytes v EGISMOC_CHECK_BYTES_LENGTH ! 0)
       + 256 * unat (egismoc_get_check_bytes v EGISMOC_CHECK_BYTES_LENGTH ! 1) = unat (check_short v)
   \<and> egismoc_get_check_bytes v EGISMOC_CHECK_BYTES_LENGTH \<noteq> [0, 0]
   \<and> (egismoc_compose_cmd B ! 8, egismoc_compose_cmd B ! 9) \<noteq> (0, 0)
   \<and> (unat (sum_shorts v) mod 0xFFFF = 0 \<longrightarrow>
        egismoc_get_check_bytes v EGISMOC_CHECK_BYTES_LENGTH = [0xFF, 0xFF])
   \<and> (unat (sum_shorts ((egismoc_compose_cmd B)[8 := 0, 9 := 0])) mod 0xFFFF = 0 \<longrightarrow>
        egismoc_compose_cmd B ! 8 = 0xFF \<and> egismoc_compose_cmd B ! 9 = 0xFF)"
proof -
  have nz: "egismoc_get_check_bytes w EGISMOC_CHECK_BYTES_LENGTH \<noteq> [0, 0]" for w
  proof
    assume a: "egismoc_get_check_bytes w EGISMOC_CHECK_BYTES_LENGTH = [0, 0]"
    have "unat (check_short w) = 0" using check_bytes_value [of w] by (simp add: a)
    with check_short_range [of w] show False by simp
  qed
  have ff: "egismoc_get_check_bytes w EGISMOC_CHECK_BYTES_LENGTH = [0xFF, 0xFF]"
    if "unat (sum_shorts w) mod 0xFFFF = 0" for w
  proof -
    have "unat (check_short w) = 65535" using that by (simp add: unat_check_short)
    moreover have "check_short w = word_of_nat (unat (check_short w))" by simp
    ultimately have "check_short w = 0xFFFF" by simp
    then show ?thesis by (simp add: get_check_bytes_2)
  qed
  let ?z = "egismoc_write_prefix @ 0 # 0 # B"
  have c: "[egismoc_compose_cmd B ! 8, egismoc_compose_cmd B ! 9]
            = egismoc_get_check_bytes ?z EGISMOC_CHECK_BYTES_LENGTH"
    by (simp add: compose_cmd_eq get_check_bytes_2 egismoc_write_prefix_def)
  have cnz: "(egismoc_compose_cmd B ! 8, egismoc_compose_cmd B ! 9) \<noteq> (0, 0)"
    using nz [of ?z] c by auto
  have cff: "egismoc_compose_cmd B ! 8 = 0xFF \<and> egismoc_compose_cmd B ! 9 = 0xFF"
    if "unat (sum_shorts ((egismoc_compose_cmd B)[8 := 0, 9 := 0])) mod 0xFFFF = 0"
    using ff [of ?z] that c by (simp add: compose_cmd_zeroed)
  from check_short_range [of v] check_bytes_value [of v] nz [of v] cnz ff [of v] cff
  show ?thesis by simp
qed

theorem check_bytes_never_zero_witness:
  "unat (sum_shorts [0xFF, 0xFF]) mod 0xFFFF = 0
   \<and> egismoc_get_check_bytes [0xFF, 0xFF] EGISMOC_CHECK_BYTES_LENGTH = [0xFF, 0xFF]
   \<and> unat (sum_shorts ((egismoc_compose_cmd [0x71, 0x64])[8 := 0, 9 := 0])) mod 0xFFFF = 0
   \<and> egismoc_compose_cmd [0x71, 0x64] ! 8 = 0xFF \<and> egismoc_compose_cmd [0x71, 0x64] ! 9 = 0xFF"
proof -
  have h1: "unat (sum_shorts [0xFF, 0xFF]) mod 0xFFFF = 0"
    by (simp add: sum_shorts_def)
  have h2: "unat (sum_shorts ((egismoc_compose_cmd [0x71, 0x64])[8 := 0, 9 := 0])) mod 0xFFFF = 0"
    by (simp add: compose_cmd_zeroed sum_shorts_def egismoc_write_prefix_def)
  show ?thesis
    using h1 h2 check_bytes_never_zero [of "[0xFF, 0xFF]" "[0x71, 0x64]"] by simp
qed

section \<open>Properties of the command builders\<close>

lemma memcpy_zeros:
  assumes "length A = pos" and "length src = n" and "n \<le> m"
  shows "memcpy (A @ replicate m 0) pos src n = A @ src @ replicate (m - n) 0"
  using assms by (simp add: memcpy_take)

lemma length_concat_ids:
  assumes "\<forall>x \<in> set ids. length x = n"
  shows "length (concat ids) = n * length ids"
  using assms by (induction ids) auto

lemma fold_memcpy_ids:
  assumes "\<forall>x \<in> set ids. length x = n" and "k \<le> length ids" and "n * k \<le> m" and "length A = pos"
  shows "fold (\<lambda>i result. memcpy result (pos + n * i) (ids ! i) n) [0..<k] (A @ replicate m 0)
           = A @ concat (take k ids) @ replicate (m - n * k) 0"
  using assms(2,3)
proof (induction k)
  case 0
  show ?case by simp
next
  case (Suc k)
  have k: "k < length ids" using Suc.prems by simp
  have lk: "length (ids ! k) = n" using assms(1) k by simp
  have lt: "length (concat (take k ids)) = n * k"
  proof -
    have "\<forall>x \<in> set (take k ids). length x = n" using assms(1) by (meson in_set_takeD)
    from length_concat_ids [OF this] show ?thesis using k by simp
  qed
  have ih: "fold (\<lambda>i result. memcpy result (pos + n * i) (ids ! i) n) [0..<k] (A @ replicate m 0)
           = (A @ concat (take k ids)) @ replicate (m - n * k) 0"
    using Suc by simp
  have le: "n \<le> m - n * k" using Suc.prems by simp
  have "memcpy ((A @ concat (take k ids)) @ replicate (m - n * k) 0) (pos + n * k) (ids ! k) n
          = (A @ concat (take k ids)) @ ids ! k @ replicate (m - n * k - n) 0"
    by (rule memcpy_zeros) (simp_all add: assms(4) lt lk le)
  then have step: "memcpy ((A @ concat (take k ids)) @ replicate (m - n * k) 0) (pos + n * k) (ids ! k) n
          = A @ concat (take (Suc k) ids) @ replicate (m - n * Suc k) 0"
    by (simp add: take_Suc_conv_app_nth [OF k])
  have "fold (\<lambda>i result. memcpy result (pos + n * i) (ids ! i) n) [0..<Suc k] (A @ replicate m 0)
      = memcpy (fold (\<lambda>i result. memcpy result (pos + n * i) (ids ! i) n) [0..<k] (A @ replicate m 0))
          (pos + n * k) (ids ! k) n"
    by simp
  then show ?case by (simp only: ih step)
qed

lemma length_code_sf [simp]: "length (code_sf n a) = 2"
  by (simp add: code_sf_def)

lemma check_cmd_size_counter_zeros:
  assumes "length A = pos" and "2 \<le> m"
  shows "check_cmd_size_counter n a (A @ replicate m 0, pos)
           = (A @ code_sf n a @ replicate (m - 2) 0, pos + 2)"
proof -
  obtain m' where m: "m = Suc (Suc m')" using assms(2) by (cases m; cases "m - 1") auto
  show ?thesis
    using assms(1)
    by (simp add: check_cmd_size_counter_def code_sf_def memset1_def m list_update_append Let_def)
qed

lemma get_check_cmd_layout:
  assumes "\<forall>x \<in> set R. length x = 32"
  shows "egismoc_get_check_cmd P S (int (length R)) R
           = [0, 0] @ code_sf (int (length R)) 9 @ P @ code_sf (int (length R)) 0
             @ replicate 32 0 @ concat R @ S"
proof -
  let ?N = "length R"
  let ?n = "int (length R)"
  let ?tot = "6 + length P + 32 + length R * 32 + length S"
  have lc: "length (concat R) = 32 * length R" by (rule length_concat_ids [OF assms])
  have e1: "check_cmd_size_counter ?n 9 (replicate ?tot 0, 2)
          = ([0, 0] @ code_sf ?n 9 @ replicate (?tot - 4) 0, 2 + 2)"
  proof -
    have r0: "replicate ?tot (0::guchar) = [0, 0] @ replicate (?tot - 2) 0"
      by (simp add: numeral_eq_Suc)
    show ?thesis
      unfolding r0 using check_cmd_size_counter_zeros [of "[0, 0]" 2 "?tot - 2" ?n 9] by simp
  qed
  have e2: "memcpy ([0, 0] @ code_sf ?n 9 @ replicate (?tot - 4) 0) (2 + 2) P (length P)
          = [0, 0] @ code_sf ?n 9 @ P @ replicate (?tot - 4 - length P) 0"
    using memcpy_zeros [of "[0, 0] @ code_sf ?n 9" "2 + 2" P "length P" "?tot - 4"] by simp
  have e3: "check_cmd_size_counter ?n 0
              ([0, 0] @ code_sf ?n 9 @ P @ replicate (?tot - 4 - length P) 0, 2 + 2 + length P)
          = ([0, 0] @ code_sf ?n 9 @ P @ code_sf ?n 0 @ replicate 32 0
               @ replicate (32 * length R + length S) 0, 2 + 2 + length P + 2)"
    using check_cmd_size_counter_zeros
            [of "[0, 0] @ code_sf ?n 9 @ P" "2 + 2 + length P" "?tot - 4 - length P" ?n 0]
    by (simp add: replicate_add [symmetric])
  have e4: "fold (\<lambda>i result. memcpy result (2 + 2 + length P + 2 + 32 + 32 * i) (R ! i) 32)
              [0..<length R]
              ([0, 0] @ code_sf ?n 9 @ P @ code_sf ?n 0 @ replicate 32 0
                 @ replicate (32 * length R + length S) 0)
          = [0, 0] @ code_sf ?n 9 @ P @ code_sf ?n 0 @ replicate 32 0 @ concat R
              @ replicate (length S) 0"
    using fold_memcpy_ids [OF assms, of "length R" "32 * length R + length S"
            "[0, 0] @ code_sf ?n 9 @ P @ code_sf ?n 0 @ replicate 32 0" "2 + 2 + length P + 2 + 32"]
    by simp
  have e5: "memcpy ([0, 0] @ code_sf ?n 9 @ P @ code_sf ?n 0 @ replicate 32 0 @ concat R
              @ replicate (length S) 0) (2 + 2 + length P + 2 + 32 + length R * 32) S (length S)
          = [0, 0] @ code_sf ?n 9 @ P @ code_sf ?n 0 @ replicate 32 0 @ concat R @ S"
    using memcpy_zeros [of "[0, 0] @ code_sf ?n 9 @ P @ code_sf ?n 0 @ replicate 32 0 @ concat R"
            "2 + 2 + length P + 2 + 32 + length R * 32" S "length S" "length S"]
    by (simp add: lc)
  show ?thesis
    by (simp only: egismoc_get_check_cmd_def Let_def g_malloc0_def
      EGISMOC_FINGERPRINT_DATA_SIZE_def EGISMOC_CMD_CHECK_SEPARATOR_LENGTH_def nat_int
      e1 prod.case e2 e3 e4 e5)
qed


lemma length_delete_sf [simp]: "length (delete_sf k a) = 2"
  by (simp add: delete_sf_def)

lemma delete_cmd_size_counter_zeros:
  assumes "length A = pos" and "2 \<le> m"
  shows "delete_cmd_size_counter k a (A @ replicate m 0, pos)
           = (A @ delete_sf k a @ replicate (m - 2) 0, pos + 2)"
proof -
  obtain m' where m: "m = Suc (Suc m')" using assms(2) by (cases m; cases "m - 1") auto
  show ?thesis
    using assms(1)
    by (simp add: delete_cmd_size_counter_def delete_sf_def memset1_def m list_update_append Let_def)
qed

lemma delete_cmd_header:
  "delete_cmd_size_counter k 0
     (memcpy (fst (delete_cmd_size_counter k 7 (replicate (6 + length P + b) 0, 2)))
        (snd (delete_cmd_size_counter k 7 (replicate (6 + length P + b) 0, 2))) P (length P),
      snd (delete_cmd_size_counter k 7 (replicate (6 + length P + b) 0, 2)) + length P)
   = ([0, 0] @ delete_sf k 7 @ P @ delete_sf k 0 @ replicate b 0, 2 + 2 + length P + 2)"
proof -
  let ?tot = "6 + length P + b"
  have e1: "delete_cmd_size_counter k 7 (replicate ?tot 0, 2)
          = ([0, 0] @ delete_sf k 7 @ replicate (?tot - 4) 0, 2 + 2)"
  proof -
    have r0: "replicate ?tot (0::guchar) = [0, 0] @ replicate (?tot - 2) 0"
      by (simp add: numeral_eq_Suc)
    show ?thesis
      unfolding r0 using delete_cmd_size_counter_zeros [of "[0, 0]" 2 "?tot - 2" k 7] by simp
  qed
  have e2: "memcpy ([0, 0] @ delete_sf k 7 @ replicate (?tot - 4) 0) (2 + 2) P (length P)
          = [0, 0] @ delete_sf k 7 @ P @ replicate (?tot - 4 - length P) 0"
    using memcpy_zeros [of "[0, 0] @ delete_sf k 7" "2 + 2" P "length P" "?tot - 4"] by simp
  have e3: "delete_cmd_size_counter k 0
              ([0, 0] @ delete_sf k 7 @ P @ replicate (?tot - 4 - length P) 0, 2 + 2 + length P)
          = ([0, 0] @ delete_sf k 7 @ P @ delete_sf k 0 @ replicate b 0, 2 + 2 + length P + 2)"
    using delete_cmd_size_counter_zeros
            [of "[0, 0] @ delete_sf k 7 @ P" "2 + 2 + length P" "?tot - 4 - length P" k 0]
    by simp
  show ?thesis by (simp only: e1 fst_conv snd_conv e2 e3)
qed

lemma get_delete_cmd_clear_layout:
  assumes "\<forall>x \<in> set R. length x = 32"
  shows "egismoc_get_delete_cmd P (int (length R)) R None
           = Some ([0, 0] @ delete_sf (int (length R)) 7 @ P @ delete_sf (int (length R)) 0 @ concat R)"
proof -
  let ?k = "int (length R)"
  have e4: "fold (\<lambda>i result. memcpy result (2 + 2 + length P + 2 + 32 * i) (R ! i) 32)
              [0..<length R]
              ([0, 0] @ delete_sf ?k 7 @ P @ delete_sf ?k 0 @ replicate (32 * length R) 0)
          = [0, 0] @ delete_sf ?k 7 @ P @ delete_sf ?k 0 @ concat R"
    using fold_memcpy_ids [OF assms, of "length R" "32 * length R"
            "[0, 0] @ delete_sf ?k 7 @ P @ delete_sf ?k 0" "2 + 2 + length P + 2"]
    by simp
  show ?thesis
    by (simp only: egismoc_get_delete_cmd_def Let_def g_malloc0_def
      EGISMOC_FINGERPRINT_DATA_SIZE_def nat_int simp_thms if_True
      case_prod_beta delete_cmd_header fst_conv snd_conv option.case e4)
qed

lemma get_delete_cmd_single_layout:
  assumes "fpi_data p = Variant_ay print_id" and "length print_id = 32"
  shows "egismoc_get_delete_cmd P n ids (Some p)
           = Some ([0, 0] @ delete_sf 1 7 @ P @ delete_sf 1 0 @ print_id)"
proof -
  have e4: "memcpy ([0, 0] @ delete_sf 1 7 @ P @ delete_sf 1 0 @ replicate (32 * nat 1) 0)
              (2 + 2 + length P + 2) print_id 32
          = [0, 0] @ delete_sf 1 7 @ P @ delete_sf 1 0 @ print_id"
    using memcpy_zeros [of "[0, 0] @ delete_sf 1 7 @ P @ delete_sf 1 0" "2 + 2 + length P + 2"
            print_id 32 32] assms(2)
    by simp
  show ?thesis
    by (simp only: egismoc_get_delete_cmd_def Let_def g_malloc0_def
      EGISMOC_FINGERPRINT_DATA_SIZE_def simp_thms if_False option.distinct
      case_prod_beta delete_cmd_header fst_conv snd_conv option.case assms(1) gvariant.case e4)
qed


lemma size_field_small:
  assumes "v < 256"
  shows "size_field v = [0x00, of_nat v]"
  using assms by (simp add: size_field_def)

lemma size_field_large:
  assumes "v = 256 + w" and "w < 256"
  shows "size_field v = [0x01, of_nat w]"
proof -
  have "(256 + w) div 256 = 1" and "(256 + w) mod 256 = w" using assms(2) by simp_all
  then show ?thesis by (simp add: size_field_def assms(1))
qed

lemma code_sf_size_field:
  assumes "N \<le> 14" and "a < 32"
  shows "code_sf (int N) (int a) = size_field ((N + 1) * 0x20 + a)"
proof (cases "N \<le> 6")
  case True
  then have v: "(N + 1) * 0x20 + a < 256" using assms(2) by simp
  have i: "(int N + 1) * 0x20 + int a = int ((N + 1) * 0x20 + a)" by simp
  have "code_sf (int N) (int a) = [0x00, word_of_int ((int N + 1) * 0x20 + int a)]"
    using True by (simp add: code_sf_def)
  also have "\<dots> = [0x00, of_nat ((N + 1) * 0x20 + a)]"
    by (simp only: i of_int_of_nat_eq)
  also have "\<dots> = size_field ((N + 1) * 0x20 + a)"
    by (simp only: size_field_small [OF v])
  finally show ?thesis .
next
  case False
  define m where "m = N - 7"
  have N: "N = 7 + m" and m: "m \<le> 7" using False assms(1) by (simp_all add: m_def)
  have v: "(N + 1) * 0x20 + a = 256 + (m * 0x20 + a)" by (simp add: N)
  have w: "m * 0x20 + a < 256" using m assms(2) by simp
  have i: "(int N - 7) * 0x20 + int a = int (m * 0x20 + a)" by (simp add: N)
  have "code_sf (int N) (int a) = [0x01, word_of_int ((int N - 7) * 0x20 + int a)]"
    using False by (simp add: code_sf_def)
  also have "\<dots> = [0x01, of_nat (m * 0x20 + a)]"
    by (simp only: i of_int_of_nat_eq)
  also have "\<dots> = size_field ((N + 1) * 0x20 + a)"
    by (simp only: size_field_large [OF v w])
  finally show ?thesis .
qed

lemma delete_sf_size_field:
  assumes "k \<le> 15" and "a < 32"
  shows "delete_sf (int k) (int a) = size_field (k * 0x20 + a)"
proof (cases "k \<le> 7")
  case True
  then have v: "k * 0x20 + a < 256" using assms(2) by simp
  have i: "int k * 0x20 + int a = int (k * 0x20 + a)" by simp
  have "delete_sf (int k) (int a) = [0x00, word_of_int (int k * 0x20 + int a)]"
    using True by (simp add: delete_sf_def)
  also have "\<dots> = [0x00, of_nat (k * 0x20 + a)]"
    by (simp only: i of_int_of_nat_eq)
  also have "\<dots> = size_field (k * 0x20 + a)"
    by (simp only: size_field_small [OF v])
  finally show ?thesis .
next
  case False
  define m where "m = k - 8"
  have k: "k = 8 + m" and m: "m \<le> 7" using False assms(1) by (simp_all add: m_def)
  have v: "k * 0x20 + a = 256 + (m * 0x20 + a)" by (simp add: k)
  have w: "m * 0x20 + a < 256" using m assms(2) by simp
  have i: "(int k - 8) * 0x20 + int a = int (m * 0x20 + a)" by (simp add: k)
  have "delete_sf (int k) (int a) = [0x01, word_of_int ((int k - 8) * 0x20 + int a)]"
    using False by (simp add: delete_sf_def)
  also have "\<dots> = [0x01, of_nat (m * 0x20 + a)]"
    by (simp only: i of_int_of_nat_eq)
  also have "\<dots> = size_field (k * 0x20 + a)"
    by (simp only: size_field_large [OF v w])
  finally show ?thesis .
qed


lemma size_field_check:
  assumes "N \<le> 14" and "a < 32"
  shows "size_field ((N + 1) * 0x20 + a)
           = (if N \<le> 6 then [0x00, of_nat ((N + 1) * 0x20 + a)]
              else [0x01, of_nat ((N - 7) * 0x20 + a)])"
proof (cases "N \<le> 6")
  case True
  then have v: "(N + 1) * 0x20 + a < 256" using assms(2) by simp
  show ?thesis using True by (simp only: size_field_small [OF v] if_True)
next
  case False
  have v: "(N + 1) * 0x20 + a = 256 + ((N - 7) * 0x20 + a)" using False by simp
  have w: "(N - 7) * 0x20 + a < 256" using assms by simp
  show ?thesis using False by (simp only: size_field_large [OF v w] if_False)
qed

lemma size_field_delete:
  assumes "k \<le> 15" and "a < 32"
  shows "size_field (k * 0x20 + a)
           = (if k \<le> 7 then [0x00, of_nat (k * 0x20 + a)]
              else [0x01, of_nat ((k - 8) * 0x20 + a)])"
proof (cases "k \<le> 7")
  case True
  then have v: "k * 0x20 + a < 256" using assms(2) by simp
  show ?thesis using True by (simp only: size_field_small [OF v] if_True)
next
  case False
  have v: "k * 0x20 + a = 256 + ((k - 8) * 0x20 + a)" using False by simp
  have w: "(k - 8) * 0x20 + a < 256" using assms by simp
  show ?thesis using False by (simp only: size_field_large [OF v w] if_False)
qed

text \<open>
  Claim C2, as amended. For every registry \<open>R\<close> of 32-byte identifiers with at most 14
  entries, \<open>N = length R\<close>, the check body is \<^verbatim>\<open>00 00\<close>, the size \<open>S1 = (N+1)*0x20 + 0x09\<close>,
  the check prefix, the size \<open>S2 = (N+1)*0x20\<close>, 32 zero bytes, the identifiers of
  \<open>R\<close> in registry order and the check suffix. Both sizes are always two bytes, big-endian:
  \<^verbatim>\<open>00\<close> and the value for \<open>N \<le> 6\<close>, \<^verbatim>\<open>01\<close> and \<open>(N-7)*0x20 + 0x09\<close> (for \<open>S2\<close>,
  \<open>(N-7)*0x20\<close>) otherwise. The body has \<open>2 + 2 + prefix + 2 + 32 + 32*N + suffix\<close> bytes.
\<close>

theorem check_cmd_body:
  assumes "\<forall>x \<in> set R. length x = 32" and "length R \<le> 14"
  shows "egismoc_get_check_cmd P S (int (length R)) R
           = [0x00, 0x00] @ size_field ((length R + 1) * 0x20 + 0x09) @ P
             @ size_field ((length R + 1) * 0x20) @ replicate 32 0x00 @ concat R @ S
       \<and> size_field ((length R + 1) * 0x20 + 0x09)
           = (if length R \<le> 6 then [0x00, of_nat ((length R + 1) * 0x20 + 0x09)]
              else [0x01, of_nat ((length R - 7) * 0x20 + 0x09)])
       \<and> size_field ((length R + 1) * 0x20)
           = (if length R \<le> 6 then [0x00, of_nat ((length R + 1) * 0x20)]
              else [0x01, of_nat ((length R - 7) * 0x20)])
       \<and> length (egismoc_get_check_cmd P S (int (length R)) R)
           = 2 + 2 + length P + 2 + 32 + 32 * length R + length S"
proof -
  have c9: "code_sf (int (length R)) 9 = size_field ((length R + 1) * 0x20 + 0x09)"
    using code_sf_size_field [OF assms(2), of 9] by simp
  have c0: "code_sf (int (length R)) 0 = size_field ((length R + 1) * 0x20)"
    using code_sf_size_field [OF assms(2), of 0] by simp
  have body: "egismoc_get_check_cmd P S (int (length R)) R
           = [0x00, 0x00] @ size_field ((length R + 1) * 0x20 + 0x09) @ P
             @ size_field ((length R + 1) * 0x20) @ replicate 32 0x00 @ concat R @ S"
    by (simp only: get_check_cmd_layout [OF assms(1)] c9 c0)
  have s9: "size_field ((length R + 1) * 0x20 + 0x09)
           = (if length R \<le> 6 then [0x00, of_nat ((length R + 1) * 0x20 + 0x09)]
              else [0x01, of_nat ((length R - 7) * 0x20 + 0x09)])"
    by (rule size_field_check [OF assms(2)]) simp
  have s0: "size_field ((length R + 1) * 0x20)
           = (if length R \<le> 6 then [0x00, of_nat ((length R + 1) * 0x20)]
              else [0x01, of_nat ((length R - 7) * 0x20)])"
    using size_field_check [OF assms(2), of 0] by simp
  have len: "length (egismoc_get_check_cmd P S (int (length R)) R)
           = 2 + 2 + length P + 2 + 32 + 32 * length R + length S"
    by (simp add: get_check_cmd_layout [OF assms(1)] length_concat_ids [OF assms(1)])
  from body s9 s0 len show ?thesis by (intro conjI)
qed

theorem check_cmd_body_witness:
  "length (replicate 7 (replicate 32 (0x41 :: guchar))) \<le> 14
   \<and> egismoc_get_check_cmd [0x17, 0x03] [0x40] 7 (replicate 7 (replicate 32 0x41))
       = [0x00, 0x00, 0x01, 0x09, 0x17, 0x03, 0x01, 0x00] @ replicate 32 0x00
         @ replicate 224 0x41 @ [0x40]"
proof -
  have h1: "\<forall>x \<in> set (replicate 7 (replicate 32 (0x41 :: guchar))). length x = 32" by simp
  have h2: "length (replicate 7 (replicate 32 (0x41 :: guchar))) \<le> 14" by simp
  have c: "concat (replicate 7 (replicate 32 (0x41 :: guchar))) = replicate 224 0x41"
    by (simp add: numeral_eq_Suc replicate_add [symmetric])
  show ?thesis
    using h2 check_cmd_body [OF h1 h2, of "[0x17, 0x03]" "[0x40]"]
    by (simp add: size_field_def c)
qed

text \<open>
  Claim C2 as stated has the sizes "encoded as one byte if N \<le> 6", with the body length
  counting one byte for each. For the empty registry the source writes four bytes before
  the prefix and two after it: the body differs from the one of the claim and is two bytes
  longer.
\<close>

theorem check_cmd_body_one_byte_counterexample:
  "egismoc_get_check_cmd [0x17, 0x03] [0x40] (int (length ([] :: guchar list list))) []
     \<noteq> spec_check_body [0x17, 0x03] [0x40] []
   \<and> length (egismoc_get_check_cmd [0x17, 0x03] [0x40] (int (length ([] :: guchar list list))) [])
     \<noteq> 2 + 1 + length [0x17, 0x03 :: guchar] + 1 + 32 + 32 * length ([] :: guchar list list)
         + length [0x40 :: guchar]"
proof -
  have "egismoc_get_check_cmd [0x17, 0x03] [0x40] (int (length ([] :: guchar list list))) []
          = [0, 0] @ code_sf (int (length ([] :: guchar list list))) 9 @ [0x17, 0x03]
            @ code_sf (int (length ([] :: guchar list list))) 0 @ replicate 32 0 @ concat [] @ [0x40]"
    by (rule get_check_cmd_layout) simp
  then show ?thesis
    by (simp add: code_sf_def spec_check_body_def spec_check_size_field_def)
qed

text \<open>
  Claim C3. For every registry \<open>R\<close> of at most 15 identifiers of 32 bytes and \<open>k\<close> in
  \<open>{1, length R}\<close>, \<^verbatim>\<open>egismoc_get_delete_cmd\<close> builds the delete body of the spec: \<^verbatim>\<open>00 00\<close>,
  \<open>S1 = k*0x20 + 0x07\<close>, the delete prefix, \<open>S2 = k*0x20\<close> and exactly \<open>k\<close> identifiers,
  the one of the target print for a single delete (\<open>k = 1\<close>), all of \<open>R\<close> in registry order
  for a clear (\<open>k = length R\<close>). The sizes take two bytes: \<^verbatim>\<open>00\<close> and the value for \<open>k \<le> 7\<close>,
  \<^verbatim>\<open>01\<close> and the value computed from \<open>k - 8\<close> otherwise. The bound covers the registries of
  the spec, which has at most 10 identifiers on a device and leaves the encoding undefined
  above 14.
\<close>

theorem delete_cmd_body:
  assumes "\<forall>x \<in> set R. length x = 32" and "length R \<le> 15"
  shows "(fpi_data p = Variant_ay print_id \<and> length print_id = 32 \<longrightarrow>
            egismoc_get_delete_cmd P (int (length R)) R (Some p)
              = Some (spec_delete_body P [print_id])
            \<and> spec_delete_body P [print_id]
              = [0x00, 0x00, 0x00, 0x27] @ P @ [0x00, 0x20] @ print_id)
       \<and> egismoc_get_delete_cmd P (int (length R)) R None = Some (spec_delete_body P R)
       \<and> spec_delete_body P R
           = [0x00, 0x00] @ size_field (length R * 0x20 + 0x07) @ P
             @ size_field (length R * 0x20) @ concat R
       \<and> size_field (length R * 0x20 + 0x07)
           = (if length R \<le> 7 then [0x00, of_nat (length R * 0x20 + 0x07)]
              else [0x01, of_nat ((length R - 8) * 0x20 + 0x07)])
       \<and> size_field (length R * 0x20)
           = (if length R \<le> 7 then [0x00, of_nat (length R * 0x20)]
              else [0x01, of_nat ((length R - 8) * 0x20)])
       \<and> drop (6 + length P) (spec_delete_body P R) = concat R
       \<and> length (spec_delete_body P R) = 6 + length P + 32 * length R"
proof -
  have body1: "spec_delete_body P [print_id]
                 = [0x00, 0x00, 0x00, 0x27] @ P @ [0x00, 0x20] @ print_id"
    by (simp add: spec_delete_body_def size_field_def)
  have single: "egismoc_get_delete_cmd P (int (length R)) R (Some p)
              = Some (spec_delete_body P [print_id])"
    if "fpi_data p = Variant_ay print_id" and "length print_id = 32"
    using get_delete_cmd_single_layout [OF that, of P "int (length R)" R]
    by (simp add: delete_sf_def body1)
  have body: "spec_delete_body P R
           = [0x00, 0x00] @ size_field (length R * 0x20 + 0x07) @ P
             @ size_field (length R * 0x20) @ concat R"
    by (simp add: spec_delete_body_def Let_def)
  have clear: "egismoc_get_delete_cmd P (int (length R)) R None = Some (spec_delete_body P R)"
  proof -
    have c7: "delete_sf (int (length R)) 7 = size_field (length R * 0x20 + 0x07)"
      using delete_sf_size_field [OF assms(2), of 7] by simp
    have c0: "delete_sf (int (length R)) 0 = size_field (length R * 0x20)"
      using delete_sf_size_field [OF assms(2), of 0] by simp
    show ?thesis by (simp only: get_delete_cmd_clear_layout [OF assms(1)] c7 c0 body)
  qed
  have s7: "size_field (length R * 0x20 + 0x07)
              = (if length R \<le> 7 then [0x00, of_nat (length R * 0x20 + 0x07)]
                 else [0x01, of_nat ((length R - 8) * 0x20 + 0x07)])"
    by (rule size_field_delete [OF assms(2)]) simp
  have s0: "size_field (length R * 0x20)
              = (if length R \<le> 7 then [0x00, of_nat (length R * 0x20)]
                 else [0x01, of_nat ((length R - 8) * 0x20)])"
    using size_field_delete [OF assms(2), of 0] by simp
  have l2: "length (size_field n) = 2" for n by (simp add: size_field_def)
  have ids: "drop (6 + length P) (spec_delete_body P R) = concat R"
  proof -
    let ?h = "[0x00, 0x00] @ size_field (length R * 0x20 + 0x07) @ P @ size_field (length R * 0x20)"
    have h: "length ?h = 6 + length P" by (simp add: l2)
    have e: "spec_delete_body P R = ?h @ concat R" by (simp add: body)
    have "drop (length ?h) (?h @ concat R) = concat R" by (rule append_eq_conv_conj [THEN iffD1, THEN conjunct2, symmetric]) (rule refl)
    then have "drop (length ?h) (spec_delete_body P R) = concat R" by (simp only: e)
    then show ?thesis by (simp only: h)
  qed
  have len: "length (spec_delete_body P R) = 6 + length P + 32 * length R"
    by (simp add: body l2 length_concat_ids [OF assms(1)])
  from single body1 clear body s7 s0 ids len show ?thesis by blast
qed

theorem delete_cmd_body_witness:
  "length (replicate 8 (replicate 32 (0x41 :: guchar))) \<le> 15
   \<and> fpi_data \<lparr>description = ''FP1'', fpi_data = Variant_ay (replicate 32 0x42)\<rparr>
       = Variant_ay (replicate 32 0x42)
   \<and> length (replicate 32 (0x42 :: guchar)) = 32
   \<and> egismoc_get_delete_cmd [0x18, 0x04] (int (length (replicate 8 (replicate 32 (0x41 :: guchar)))))
         (replicate 8 (replicate 32 0x41))
         (Some \<lparr>description = ''FP1'', fpi_data = Variant_ay (replicate 32 0x42)\<rparr>)
       = Some ([0x00, 0x00, 0x00, 0x27, 0x18, 0x04, 0x00, 0x20] @ replicate 32 0x42)
   \<and> egismoc_get_delete_cmd [0x18, 0x04] (int (length (replicate 8 (replicate 32 (0x41 :: guchar)))))
         (replicate 8 (replicate 32 0x41)) None
       = Some ([0x00, 0x00, 0x01, 0x07, 0x18, 0x04, 0x01, 0x00] @ replicate 256 0x41)"
proof -
  have h1: "\<forall>x \<in> set (replicate 8 (replicate 32 (0x41 :: guchar))). length x = 32" by simp
  have h2: "length (replicate 8 (replicate 32 (0x41 :: guchar))) \<le> 15" by simp
  have c: "concat (replicate 8 (replicate 32 (0x41 :: guchar))) = replicate 256 0x41"
    by (simp add: numeral_eq_Suc replicate_add [symmetric])
  show ?thesis
    using delete_cmd_body [OF h1 h2, of "\<lparr>description = ''FP1'', fpi_data = Variant_ay (replicate 32 0x42)\<rparr>"
                              "replicate 32 0x42" "[0x18, 0x04]"]
    by (simp add: size_field_def c)
qed

text \<open>
  The bound of 15 identifiers is the one of the encoding. For a clear of 16 identifiers
  the source writes the size bytes \<^verbatim>\<open>01 07\<close> and \<^verbatim>\<open>01 00\<close>: the second byte
  \<open>(16-8)*0x20 + 0x07 = 0x107\<close> is cut to \<^verbatim>\<open>07\<close>, and the field does not hold
  \<open>16*0x20 + 0x07\<close>. The source notes the limit, and no device holds that many prints.
\<close>

lemma delete_cmd_sixteen_overflow:
  "egismoc_get_delete_cmd [0x18, 0x04] (int (length (replicate 16 (replicate 32 (0x41 :: guchar)))))
       (replicate 16 (replicate 32 0x41)) None
     = Some ([0x00, 0x00, 0x01, 0x07, 0x18, 0x04, 0x01, 0x00] @ concat (replicate 16 (replicate 32 0x41)))
   \<and> egismoc_get_delete_cmd [0x18, 0x04] (int (length (replicate 16 (replicate 32 (0x41 :: guchar)))))
       (replicate 16 (replicate 32 0x41)) None
     \<noteq> Some (spec_delete_body [0x18, 0x04] (replicate 16 (replicate 32 0x41)))"
proof -
  have h1: "\<forall>x \<in> set (replicate 16 (replicate 32 (0x41 :: guchar))). length x = 32" by simp
  have "egismoc_get_delete_cmd [0x18, 0x04] (int (length (replicate 16 (replicate 32 (0x41 :: guchar)))))
       (replicate 16 (replicate 32 0x41)) None
     = Some ([0, 0] @ delete_sf (int (length (replicate 16 (replicate 32 (0x41 :: guchar))))) 7
             @ [0x18, 0x04] @ delete_sf (int (length (replicate 16 (replicate 32 (0x41 :: guchar))))) 0
             @ concat (replicate 16 (replicate 32 0x41)))"
    by (rule get_delete_cmd_clear_layout [OF h1])
  then show ?thesis
    by (simp add: delete_sf_def spec_delete_body_def size_field_def)
qed

section \<open>Unfolding the state machines\<close>

lemmas ssm_defs = fpi_ssm_start_def fpi_ssm_next_state_def fpi_ssm_jump_to_state_def
  fpi_ssm_mark_failed_def egismoc_task_ssm_done_def fpi_ssm_call_handler.simps
  egismoc_get_cmd_def egismoc_fill_enrolled_ids_def egismoc_wait_finger_on_sensor_def emit_def


lemma run_Nil: "run T self [] = self"
  by (simp add: run_def)

lemma run_Cons: "run T self (ev # evs) = run T (usb_complete T self ev) evs"
  by (simp add: run_def)

lemmas cb_defs = run_Nil run_Cons usb_complete.simps egismoc_cmd_receive_cb_def
  egismoc_read_prefix_len_def egismoc_list_cb_def egismoc_task_ssm_next_state_cb_def
  egismoc_finger_on_sensor_cb_def Let_def

lemma run_idle:
  assumes "pending self = None"
  shows "run T self evs = self"
proof (induction evs)
  case Nil
  show ?case by (simp add: run_Nil)
next
  case (Cons ev evs)
  have "usb_complete T self ev = self" using assms by (simp add: usb_complete.simps)
  then show ?case using Cons by (simp add: run_Cons)
qed

lemma enroll_start:
  "egismoc_enroll T self =
     self\<lparr>stage := 0, task_ssm := Some (Enroll ENROLL_GET_ENROLLED_IDS), enrolled_ids := Some [],
          trace := trace self @ [Usb_cmd_out CMD_LIST], pending := Some (Cmd_transfer LIST_CB)\<rparr>"
  by (simp add: egismoc_enroll_def ssm_defs)

lemma identify_start:
  "egismoc_identify_verify T self =
     self\<lparr>task_ssm := Some (Identify IDENTIFY_GET_ENROLLED_IDS), enrolled_ids := Some [],
          trace := trace self @ [Usb_cmd_out CMD_LIST], pending := Some (Cmd_transfer LIST_CB)\<rparr>"
  by (simp add: egismoc_identify_verify_def ssm_defs)

text \<open>The new-print command of \<^verbatim>\<open>ENROLL_COMMIT\<close> has the prefix and 32 bytes, whatever the
  length of the user id; the bytes of the user id come first.\<close>

lemma enroll_commit_cmd:
  "egismoc_enroll_run_state T self ENROLL_COMMIT
     = (egismoc_get_cmd self
          (CMD_NEW_PRINT (cmd_new_print_prefix T
                          @ map (\<lambda>i. generated_user_id self ! i) [0..<32]))
          TASK_SSM_NEXT_STATE_CB, SSM_RETURN)"
proof -
  have "map ((!) xs) [0..<32] = xs" if "length xs = 32" for xs :: "guchar list"
    using map_nth [of xs] that by simp
  then show ?thesis
    by (simp add: Let_def memcpy_def g_malloc0_def EGISMOC_FINGERPRINT_DATA_SIZE_def map_nth)
qed

section \<open>Properties of the registry\<close>

lemma list_cb_print_id_eq:
  assumes "14 + 32 * i + 32 \<le> length buffer_in"
  shows "list_cb_print_id buffer_in i = take 32 (drop (14 + 32 * i) buffer_in)"
  using map_nth_upt [of "14 + 32 * i" 32 buffer_in] assms
  by (simp add: list_cb_print_id_def EGISMOC_FINGERPRINT_DATA_SIZE_def mult.commute)

lemma fold_g_ptr_array_add:
  "fold (\<lambda>print_num self. self\<lparr>enrolled_ids := g_ptr_array_add (enrolled_ids self) (f print_num)\<rparr>)
     [0..<k] self
   = self\<lparr>enrolled_ids := map_option (\<lambda>xs. xs @ map f [0..<k]) (enrolled_ids self)\<rparr>"
proof (induction k)
  case 0
  show ?case by (cases "enrolled_ids self") (simp_all add: option.map_ident)
next
  case (Suc k)
  let ?F = "\<lambda>print_num self. self\<lparr>enrolled_ids := g_ptr_array_add (enrolled_ids self) (f print_num)\<rparr>"
  have "fold ?F [0..<Suc k] self = ?F k (fold ?F [0..<k] self)" by simp
  also have "\<dots> = ?F k (self\<lparr>enrolled_ids := map_option (\<lambda>xs. xs @ map f [0..<k]) (enrolled_ids self)\<rparr>)"
    by (simp only: Suc)
  also have "\<dots> = self\<lparr>enrolled_ids := map_option (\<lambda>xs. xs @ map f [0..<Suc k]) (enrolled_ids self)\<rparr>"
    by (cases "enrolled_ids self") (simp_all add: g_ptr_array_add_def)
  finally show ?case .
qed

lemma list_cb_fill_eq:
  "list_cb_fill self buffer_in length_in =
     (if length_in < 48 then self\<lparr>enrolled_num := 0\<rparr>
      else self\<lparr>enrolled_num := int ((length_in - 16) div 32),
                enrolled_ids := map_option
                  (\<lambda>xs. xs @ map (list_cb_print_id buffer_in) [0..<(length_in - 16) div 32])
                  (enrolled_ids self)\<rparr>)"
  by (simp add: list_cb_fill_def EGISMOC_FINGERPRINT_DATA_SIZE_def Let_def fold_g_ptr_array_add)

lemma list_cb_fill_fields [simp]:
  "trace (list_cb_fill self buffer_in length_in) = trace self"
  "pending (list_cb_fill self buffer_in length_in) = pending self"
  "task_ssm (list_cb_fill self buffer_in length_in) = task_ssm self"
  "stage (list_cb_fill self buffer_in length_in) = stage self"
  by (simp_all add: list_cb_fill_eq)

lemma enrolled_num_list_cb_fill:
  "enrolled_num (list_cb_fill self buffer_in length_in)
     = (if length_in < 48 then 0 else int ((length_in - 16) div 32))"
  by (simp add: list_cb_fill_eq)





text \<open>The handler of a state that refreshes the registry leaves a fresh array and the list
  command waiting for its reply.\<close>

lemma fills_enrolled_ids_handler:
  assumes "fills_enrolled_ids s"
  shows "enrolled_ids (fpi_ssm_call_handler T self s) = Some []
       \<and> task_ssm (fpi_ssm_call_handler T self s) = Some s
       \<and> pending (fpi_ssm_call_handler T self s) = Some (Cmd_transfer LIST_CB)"
proof -
  consider "s = Enroll ENROLL_GET_ENROLLED_IDS"
    | "s = Identify IDENTIFY_GET_ENROLLED_IDS"
    | "s = Clear_storage CLEAR_STORAGE_GET_ENROLLED_IDS_BEFORE"
    | "s = Clear_storage CLEAR_STORAGE_GET_ENROLLED_IDS_AFTER"
    | "s = List LIST_GET_ENROLLED_IDS"
    | "s = Delete DELETE_GET_ENROLLED_IDS"
    using assms by (cases s) auto
  then show ?thesis by cases (simp_all add: ssm_defs)
qed




section \<open>Properties of the response classification\<close>

lemma memcmp_eq_iff:
  "memcmp_eq buf off marker n \<longleftrightarrow> (\<forall>i<n. buf ! (off + i) = marker ! i)"
  by (auto simp: memcmp_eq_def list_all_iff)





text \<open>
  Claim C10. The classification of a reply by its prefix does not depend on the length
  reported for the reply: \<^verbatim>\<open>egismoc_validate_response_prefix\<close> compares the bytes of the
  receive buffer from offset \<open>egismoc_read_prefix_len + 2\<close> with the marker, whatever its
  length argument. \<^verbatim>\<open>egismoc_cmd_receive_cb\<close> hands a reply to the callback as soon as it has
  \<open>egismoc_read_prefix_len\<close> (6) bytes and rejects only shorter ones. So a reply whose length
  is at least 6 and below the end of the marker is classified by bytes of the buffer that
  were not received: changing the last compared byte, which lies beyond the received
  bytes, turns a match into a mismatch.
\<close>

theorem response_prefix_ignores_length:
  "egismoc_validate_response_prefix buffer_in l1 marker
     = egismoc_validate_response_prefix buffer_in l2 marker
   \<and> (egismoc_validate_response_prefix buffer_in l1 marker
        \<longleftrightarrow> (\<forall>i < length marker. buffer_in ! (egismoc_read_prefix_len + 2 + i) = marker ! i))
   \<and> (egismoc_read_prefix_len \<le> actual_length \<longrightarrow>
        egismoc_cmd_receive_cb None buffer_in actual_length = (buffer_in, actual_length, None))
   \<and> (actual_length < egismoc_read_prefix_len \<longrightarrow>
        egismoc_cmd_receive_cb None buffer_in actual_length
          = ([], 0, Some FP_DEVICE_ERROR_GENERAL))
   \<and> (marker \<noteq> [] \<and> egismoc_read_prefix_len \<le> actual_length
        \<and> actual_length < egismoc_read_prefix_len + 2 + length marker
        \<and> egismoc_read_prefix_len + 2 + length marker \<le> length buffer_in
        \<and> egismoc_validate_response_prefix buffer_in actual_length marker
        \<and> x \<noteq> last marker \<longrightarrow>
          take actual_length (buffer_in[egismoc_read_prefix_len + 2 + length marker - 1 := x])
            = take actual_length buffer_in
        \<and> \<not> egismoc_validate_response_prefix
              (buffer_in[egismoc_read_prefix_len + 2 + length marker - 1 := x])
              actual_length marker)"
proof -
  have indep: "egismoc_validate_response_prefix buffer_in l1 marker
     = egismoc_validate_response_prefix buffer_in l2 marker"
    by (simp add: egismoc_validate_response_prefix_def)
  have pos: "egismoc_validate_response_prefix buffer_in l1 marker
        \<longleftrightarrow> (\<forall>i < length marker. buffer_in ! (egismoc_read_prefix_len + 2 + i) = marker ! i)"
    by (simp add: egismoc_validate_response_prefix_def memcmp_eq_iff EGISMOC_CHECK_BYTES_LENGTH_def)
  have pass: "egismoc_cmd_receive_cb None buffer_in actual_length = (buffer_in, actual_length, None)"
    if "egismoc_read_prefix_len \<le> actual_length"
    using that by (simp add: egismoc_cmd_receive_cb_def)
  have short: "egismoc_cmd_receive_cb None buffer_in actual_length
          = ([], 0, Some FP_DEVICE_ERROR_GENERAL)"
    if "actual_length < egismoc_read_prefix_len"
    using that by (simp add: egismoc_cmd_receive_cb_def)
  have beyond: "take actual_length (buffer_in[egismoc_read_prefix_len + 2 + length marker - 1 := x])
            = take actual_length buffer_in
        \<and> \<not> egismoc_validate_response_prefix
              (buffer_in[egismoc_read_prefix_len + 2 + length marker - 1 := x])
              actual_length marker"
    if m: "marker \<noteq> []" and lo: "egismoc_read_prefix_len \<le> actual_length"
      and hi: "actual_length < egismoc_read_prefix_len + 2 + length marker"
      and len: "egismoc_read_prefix_len + 2 + length marker \<le> length buffer_in"
      and x: "x \<noteq> last marker"
  proof -
    let ?p = "egismoc_read_prefix_len + 2 + length marker - 1"
    have n: "0 < length marker" using m by simp
    have p: "?p = egismoc_read_prefix_len + 2 + (length marker - 1)" using n by simp
    have "actual_length \<le> ?p" using hi by simp
    then have t: "take actual_length (buffer_in[?p := x]) = take actual_length buffer_in"
      by (rule take_update_cancel)
    have "?p < length buffer_in" using len n by simp
    then have "buffer_in[?p := x] ! (egismoc_read_prefix_len + 2 + (length marker - 1)) = x"
      by (simp only: p nth_list_update_eq)
    moreover have "marker ! (length marker - 1) = last marker"
      using m by (simp add: last_conv_nth)
    ultimately have "buffer_in[?p := x] ! (egismoc_read_prefix_len + 2 + (length marker - 1))
                       \<noteq> marker ! (length marker - 1)"
      using x by simp
    moreover have "length marker - 1 < length marker" using n by simp
    ultimately have "\<not> (\<forall>i < length marker.
        buffer_in[?p := x] ! (egismoc_read_prefix_len + 2 + i) = marker ! i)"
      by blast
    then have "\<not> egismoc_validate_response_prefix (buffer_in[?p := x]) actual_length marker"
      by (simp add: egismoc_validate_response_prefix_def memcmp_eq_iff
          EGISMOC_CHECK_BYTES_LENGTH_def)
    with t show ?thesis by (rule conjI)
  qed
  from indep pos pass short beyond show ?thesis by blast
qed

theorem response_prefix_ignores_length_witness:
  "egismoc_read_prefix_len \<le> 6
   \<and> egismoc_cmd_receive_cb None (replicate 8 0x00 @ [0xC0, 0x01] @ replicate 6 0x00) 6
       = (replicate 8 0x00 @ [0xC0, 0x01] @ replicate 6 0x00, 6, None)
   \<and> egismoc_validate_response_prefix (replicate 8 0x00 @ [0xC0, 0x01] @ replicate 6 0x00) 6
       [0xC0, 0x01]
   \<and> take 6 ((replicate 8 0x00 @ [0xC0, 0x01] @ replicate 6 0x00)[9 := 0x02])
       = take 6 (replicate 8 0x00 @ [0xC0, 0x01] @ replicate 6 (0x00 :: guchar))
   \<and> \<not> egismoc_validate_response_prefix
         ((replicate 8 0x00 @ [0xC0, 0x01] @ replicate 6 0x00)[9 := 0x02]) 6 [0xC0, 0x01]"
proof -
  let ?b = "replicate 8 0x00 @ [0xC0, 0x01] @ replicate 6 (0x00 :: guchar)"
  have h1: "egismoc_read_prefix_len \<le> 6" by (simp add: egismoc_read_prefix_len_def)
  have h2: "egismoc_validate_response_prefix ?b 6 [0xC0, 0x01]"
    by (simp add: egismoc_validate_response_prefix_def memcmp_eq_iff
        egismoc_read_prefix_len_def EGISMOC_CHECK_BYTES_LENGTH_def nth_append less_Suc_eq
        numeral_2_eq_2)
  have p: "egismoc_read_prefix_len + 2 + length [0xC0, 0x01 :: guchar] - 1 = 9"
    by (simp add: egismoc_read_prefix_len_def)
  note t = response_prefix_ignores_length [of ?b 6 "[0xC0, 0x01]" 6 6 "0x02"]
  have "take 6 (?b[9 := 0x02]) = take 6 ?b
        \<and> \<not> egismoc_validate_response_prefix (?b[9 := 0x02]) 6 [0xC0, 0x01]"
    using t h1 h2 by (simp add: p egismoc_read_prefix_len_def)
  moreover have "egismoc_cmd_receive_cb None ?b 6 = (?b, 6, None)"
    using t h1 by blast
  ultimately show ?thesis using h1 h2 by blast
qed

section \<open>Properties of the state machines\<close>

text \<open>
  Claim C8. If the count that the registry refresh of an enroll stores is at least
  \<^verbatim>\<open>EGISMOC_MAX_ENROLL_NUM\<close> (10), the outputs of the enroll are the list command of the
  refresh and the completion of the enroll with the data-full error, whatever completions
  follow: no sensor command is sent.
\<close>

theorem enroll_full:
  assumes "EGISMOC_MAX_ENROLL_NUM
             \<le> enrolled_num (list_cb_fill (egismoc_enroll T self) buffer_in length_in)"
  shows "trace (run T (egismoc_enroll T self) (Bulk_in None buffer_in length_in # evs))
           = trace self @ [Usb_cmd_out CMD_LIST,
                           Enroll_complete False (Some FP_DEVICE_ERROR_DATA_FULL)]"
proof -
  have n: "10 \<le> (length_in - 16) div 32 \<and> 48 \<le> length_in"
    using assms
    by (simp add: enrolled_num_list_cb_fill EGISMOC_MAX_ENROLL_NUM_def split: if_splits)
  let ?d = "usb_complete T (egismoc_enroll T self) (Bulk_in None buffer_in length_in)"
  have d: "pending ?d = None \<and> trace ?d = trace self @ [Usb_cmd_out CMD_LIST,
             Enroll_complete False (Some FP_DEVICE_ERROR_DATA_FULL)]"
    using n
    by (simp add: enroll_start cb_defs ssm_defs enrolled_num_list_cb_fill EGISMOC_MAX_ENROLL_NUM_def)
  show ?thesis using d run_idle [of ?d T evs] by (simp add: run_Cons)
qed

theorem enroll_full_witness:
  "EGISMOC_MAX_ENROLL_NUM
     \<le> enrolled_num (list_cb_fill (egismoc_enroll example_tables fpi_device_egismoc_init)
                        (replicate 336 0x41) 336)
   \<and> trace (run example_tables (egismoc_enroll example_tables fpi_device_egismoc_init)
              [Bulk_in None (replicate 336 0x41) 336, Bulk_in None (replicate 16 0) 16])
       = [Usb_cmd_out CMD_LIST, Enroll_complete False (Some FP_DEVICE_ERROR_DATA_FULL)]"
proof -
  have h: "EGISMOC_MAX_ENROLL_NUM
     \<le> enrolled_num (list_cb_fill (egismoc_enroll example_tables fpi_device_egismoc_init)
                        (replicate 336 0x41) 336)"
    by (simp add: enrolled_num_list_cb_fill EGISMOC_MAX_ENROLL_NUM_def)
  show ?thesis
    using h enroll_full [OF h, of "[Bulk_in None (replicate 16 0) 16]"]
    by (simp add: fpi_device_egismoc_init_def)
qed

text \<open>Identify and verify with an empty registry: after the list command of the refresh
  the machine fails with data-not-found, and no sensor command is sent.\<close>

lemma identify_verify_empty:
  assumes "enrolled_num (list_cb_fill (egismoc_identify_verify T self) buffer_in length_in) = 0"
    and "egismoc_read_prefix_len \<le> length_in"
  shows "trace (run T (egismoc_identify_verify T self) (Bulk_in None buffer_in length_in # evs))
           = trace self @ [Usb_cmd_out CMD_LIST, Action_error FP_DEVICE_ERROR_DATA_NOT_FOUND]"
proof -
  let ?d = "usb_complete T (egismoc_identify_verify T self) (Bulk_in None buffer_in length_in)"
  have d: "pending ?d = None \<and> trace ?d = trace self @ [Usb_cmd_out CMD_LIST,
             Action_error FP_DEVICE_ERROR_DATA_NOT_FOUND]"
    using assms
    by (simp add: identify_start cb_defs ssm_defs enrolled_num_list_cb_fill)
  show ?thesis using d run_idle [of ?d T evs] by (simp add: run_Cons)
qed

lemma get_delete_cmd_empty:
  "egismoc_get_delete_cmd P 0 [] None = Some ([0x00, 0x00, 0x00, 0x07] @ P @ [0x00, 0x00])"
  using get_delete_cmd_clear_layout [of "[]" P] by (simp add: delete_sf_def)

text \<open>
  Claim C5, for clear-storage. \<^verbatim>\<open>egismoc_clear_storage\<close> tests \<open>enrolled_num\<close> before the
  machine refreshes the registry. With a count of 1 left by an earlier operation and a
  refresh that returns no identifier, the driver sends the list command and then a delete
  command with no identifier; with a count of 0 it reports data-not-found at once, without
  a refresh.
\<close>

theorem clear_storage_cached_count:
  "trace (run T (egismoc_clear_storage T (self\<lparr>enrolled_num := 1\<rparr>))
            [Bulk_in None (replicate 16 0) 16])
     = trace self @ [Usb_cmd_out CMD_LIST,
                     Usb_cmd_out (CMD_DELETE ([0x00, 0x00, 0x00, 0x07] @ cmd_delete_prefix T
                                              @ [0x00, 0x00]))]
   \<and> trace (egismoc_clear_storage T (self\<lparr>enrolled_num := 0\<rparr>))
     = trace self @ [Clear_storage_complete (Some FP_DEVICE_ERROR_DATA_NOT_FOUND)]"
proof -
  have a: "trace (run T (egismoc_clear_storage T (self\<lparr>enrolled_num := 1\<rparr>))
            [Bulk_in None (replicate 16 0) 16])
     = trace self @ [Usb_cmd_out CMD_LIST,
                     Usb_cmd_out (CMD_DELETE ([0x00, 0x00, 0x00, 0x07] @ cmd_delete_prefix T
                                              @ [0x00, 0x00]))]"
    by (simp add: egismoc_clear_storage_def cb_defs ssm_defs list_cb_fill_eq registry_def
        get_delete_cmd_empty)
  have b: "trace (egismoc_clear_storage T (self\<lparr>enrolled_num := 0\<rparr>))
     = trace self @ [Clear_storage_complete (Some FP_DEVICE_ERROR_DATA_NOT_FOUND)]"
    by (simp add: egismoc_clear_storage_def emit_def)
  from a b show ?thesis by (rule conjI)
qed





subsection \<open>The duplicate check of the enroll machine\<close>

lemma enrolled_ids_list_cb_fill:
  "enrolled_ids (list_cb_fill self buffer_in length_in)
     = (if length_in < 48 then enrolled_ids self
        else map_option (\<lambda>xs. xs @ map (list_cb_print_id buffer_in) [0..<(length_in - 16) div 32])
               (enrolled_ids self))"
  by (simp add: list_cb_fill_eq)

lemma registry_list_cb_fill:
  assumes "enrolled_ids self = Some ids"
  shows "registry (list_cb_fill self buffer_in length_in)
     = (if length_in < 48 then ids
        else ids @ map (list_cb_print_id buffer_in) [0..<(length_in - 16) div 32])"
  using assms by (simp add: registry_def enrolled_ids_list_cb_fill)

lemma registry_update [simp]:
  "registry (self\<lparr>pending := p\<rparr>) = registry self"
  "registry (self\<lparr>trace := t\<rparr>) = registry self"
  "registry (self\<lparr>task_ssm := s\<rparr>) = registry self"
  "registry (self\<lparr>stage := n\<rparr>) = registry self"
  "registry (self\<lparr>enrolled_num := k\<rparr>) = registry self"
  "registry (self\<lparr>enrolled_ids := Some ids\<rparr>) = ids"
  by (simp_all add: registry_def)

lemma enroll_check_cb_duplicate:
  assumes "\<not> egismoc_validate_response_prefix buffer_in length_in
               (rsp_check_not_yet_enrolled_prefix T)"
  shows "egismoc_enroll_check_cb T self buffer_in length_in None
           = emit (Enroll_complete False (Some FP_DEVICE_ERROR_DATA_DUPLICATE)) self"
  using assms by (simp add: egismoc_enroll_check_cb_def)

text \<open>
  Claim C6. In an enroll, the registry refresh (a count below the maximum), the sensor
  reset, the sensor enroll, the finger wait and the sensor check succeed and the check
  command is sent. If its reply does not carry the not-yet-enrolled prefix, whatever it
  starts with and whatever completions follow, the driver has reported the enroll complete
  with the data-duplicate error and has sent nothing after the check command: no
  commit-start and no new-print command is among its outputs.
\<close>

theorem enroll_duplicate:
  assumes "enrolled_num (list_cb_fill (egismoc_enroll T self) b1 l1) < EGISMOC_MAX_ENROLL_NUM"
    and "egismoc_read_prefix_len \<le> l1" and "egismoc_read_prefix_len \<le> l2"
    and "egismoc_read_prefix_len \<le> l3" and "egismoc_read_prefix_len \<le> l4"
    and "egismoc_read_prefix_len \<le> l5"
    and "\<not> egismoc_validate_response_prefix b5 l5 (rsp_check_not_yet_enrolled_prefix T)"
    and "final = run T (egismoc_enroll T self)
                   ([Bulk_in None b1 l1, Bulk_in None b2 l2, Bulk_in None b3 l3,
                     Interrupt_in None, Bulk_in None b4 l4, Bulk_in None b5 l5] @ evs)"
  shows "trace final
           = trace self @
             [Usb_cmd_out CMD_LIST, Usb_cmd_out CMD_SENSOR_RESET, Usb_cmd_out CMD_SENSOR_ENROLL,
              Report_finger_status FP_FINGER_STATUS_NEEDED, Usb_interrupt_in,
              Report_finger_status FP_FINGER_STATUS_PRESENT, Usb_cmd_out CMD_SENSOR_CHECK,
              Usb_cmd_out (CMD_CHECK
                (egismoc_get_check_cmd (cmd_check_prefix T) (cmd_check_suffix T)
                   (enrolled_num (list_cb_fill (egismoc_enroll T self) b1 l1))
                   (registry (list_cb_fill (egismoc_enroll T self) b1 l1)))),
              Enroll_complete False (Some FP_DEVICE_ERROR_DATA_DUPLICATE)]
       \<and> Usb_cmd_out CMD_COMMIT_STARTING \<notin> set (drop (length (trace self)) (trace final))
       \<and> (\<forall>cmd. Usb_cmd_out (CMD_NEW_PRINT cmd) \<notin> set (drop (length (trace self)) (trace final)))"
proof -
  let ?evs = "[Bulk_in None b1 l1, Bulk_in None b2 l2, Bulk_in None b3 l3,
               Interrupt_in None, Bulk_in None b4 l4, Bulk_in None b5 l5]"
  let ?d = "run T (egismoc_enroll T self) ?evs"
  let ?t = "[Usb_cmd_out CMD_LIST, Usb_cmd_out CMD_SENSOR_RESET, Usb_cmd_out CMD_SENSOR_ENROLL,
              Report_finger_status FP_FINGER_STATUS_NEEDED, Usb_interrupt_in,
              Report_finger_status FP_FINGER_STATUS_PRESENT, Usb_cmd_out CMD_SENSOR_CHECK,
              Usb_cmd_out (CMD_CHECK
                (egismoc_get_check_cmd (cmd_check_prefix T) (cmd_check_suffix T)
                   (enrolled_num (list_cb_fill (egismoc_enroll T self) b1 l1))
                   (registry (list_cb_fill (egismoc_enroll T self) b1 l1)))),
              Enroll_complete False (Some FP_DEVICE_ERROR_DATA_DUPLICATE)]"
  have n: "(if l1 < 48 then 0 else int ((l1 - 16) div 32)) < 10"
    using assms(1) by (simp add: enrolled_num_list_cb_fill EGISMOC_MAX_ENROLL_NUM_def)
  have d: "pending ?d = None \<and> trace ?d = trace self @ ?t"
    using n assms(2-7)
    by (simp add: enroll_start cb_defs ssm_defs enrolled_num_list_cb_fill registry_list_cb_fill
        EGISMOC_MAX_ENROLL_NUM_def egismoc_enroll_check_cb_def)
  have "final = run T ?d evs"
    by (simp only: assms(8) run_def foldl_append)
  also have "\<dots> = ?d" using d run_idle by blast
  finally have t: "trace final = trace self @ ?t" using d by simp
  have "drop (length (trace self)) (trace final) = ?t" by (simp add: t)
  then show ?thesis using t by simp
qed

theorem enroll_duplicate_witness:
  "enrolled_num (list_cb_fill (egismoc_enroll example_tables fpi_device_egismoc_init)
       (replicate 14 0x00 @ replicate 32 0x41 @ [0x90, 0x00]) 48) < EGISMOC_MAX_ENROLL_NUM
   \<and> egismoc_read_prefix_len \<le> 48 \<and> egismoc_read_prefix_len \<le> 16
   \<and> \<not> egismoc_validate_response_prefix (replicate 8 0x00 @ [0xB0] @ replicate 7 0x00) 16
         (rsp_check_not_yet_enrolled_prefix example_tables)
   \<and> trace (run example_tables (egismoc_enroll example_tables fpi_device_egismoc_init)
        ([Bulk_in None (replicate 14 0x00 @ replicate 32 0x41 @ [0x90, 0x00]) 48,
          Bulk_in None (replicate 16 0x00) 16, Bulk_in None (replicate 16 0x00) 16,
          Interrupt_in None, Bulk_in None (replicate 16 0x00) 16,
          Bulk_in None (replicate 8 0x00 @ [0xB0] @ replicate 7 0x00) 16]
         @ [Bulk_in None (replicate 16 0x00) 16]))
     = [Usb_cmd_out CMD_LIST, Usb_cmd_out CMD_SENSOR_RESET, Usb_cmd_out CMD_SENSOR_ENROLL,
        Report_finger_status FP_FINGER_STATUS_NEEDED, Usb_interrupt_in,
        Report_finger_status FP_FINGER_STATUS_PRESENT, Usb_cmd_out CMD_SENSOR_CHECK,
        Usb_cmd_out (CMD_CHECK ([0x00, 0x00, 0x00, 0x49, 0x17, 0x03, 0x00, 0x40]
                                @ replicate 32 0x00 @ replicate 32 0x41 @ [0x40])),
        Enroll_complete False (Some FP_DEVICE_ERROR_DATA_DUPLICATE)]"
proof -
  let ?b1 = "replicate 14 0x00 @ replicate 32 0x41 @ [0x90, 0x00 :: guchar]"
  let ?b5 = "replicate 8 0x00 @ [0xB0] @ replicate 7 (0x00 :: guchar)"
  let ?z = "replicate 16 (0x00 :: guchar)"
  have e1: "enrolled_num (list_cb_fill (egismoc_enroll example_tables fpi_device_egismoc_init)
              ?b1 48) = 1"
    by (simp add: enrolled_num_list_cb_fill)
  have h1: "enrolled_num (list_cb_fill (egismoc_enroll example_tables fpi_device_egismoc_init)
              ?b1 48) < EGISMOC_MAX_ENROLL_NUM"
    by (simp add: e1 EGISMOC_MAX_ENROLL_NUM_def)
  have h2: "egismoc_read_prefix_len \<le> 48" and h3: "egismoc_read_prefix_len \<le> 16"
    by (simp_all add: egismoc_read_prefix_len_def)
  have p: "rsp_check_not_yet_enrolled_prefix example_tables = [0xC0]"
    by (simp add: example_tables_def)
  have h4: "\<not> egismoc_validate_response_prefix ?b5 16
         (rsp_check_not_yet_enrolled_prefix example_tables)"
    by (simp add: p egismoc_validate_response_prefix_def memcmp_eq_def
        egismoc_read_prefix_len_def EGISMOC_CHECK_BYTES_LENGTH_def nth_append)
  have id: "list_cb_print_id ?b1 0 = replicate 32 0x41"
    using list_cb_print_id_eq [of 0 ?b1] by simp
  have e2: "registry (list_cb_fill (egismoc_enroll example_tables fpi_device_egismoc_init)
              ?b1 48) = [replicate 32 0x41]"
    by (simp add: registry_list_cb_fill [where ids = "[]"] enroll_start id)
  have e3: "cmd_check_prefix example_tables = [0x17, 0x03]"
    and e4: "cmd_check_suffix example_tables = [0x40]"
    by (simp_all add: example_tables_def)
  have e5: "trace fpi_device_egismoc_init = []"
    by (simp add: fpi_device_egismoc_init_def)
  have body: "egismoc_get_check_cmd [0x17, 0x03] [0x40] 1 [replicate 32 0x41]
                = [0x00, 0x00, 0x00, 0x49, 0x17, 0x03, 0x00, 0x40]
                  @ replicate 32 0x00 @ replicate 32 0x41 @ [0x40]"
    using get_check_cmd_layout [of "[replicate 32 0x41]" "[0x17, 0x03]" "[0x40]"]
    by (simp add: code_sf_def)
  note t = enroll_duplicate [where T = example_tables and self = fpi_device_egismoc_init
      and ?b1.0 = ?b1 and ?l1.0 = 48 and ?b2.0 = ?z and ?l2.0 = 16 and ?b3.0 = ?z and ?l3.0 = 16
      and ?b4.0 = ?z and ?l4.0 = 16 and ?b5.0 = ?b5 and ?l5.0 = 16
      and evs = "[Bulk_in None ?z 16]", OF h1 h2 h3 h3 h3 h3 h4 refl]
  from t have "trace (run example_tables (egismoc_enroll example_tables fpi_device_egismoc_init)
        ([Bulk_in None ?b1 48, Bulk_in None ?z 16, Bulk_in None ?z 16,
          Interrupt_in None, Bulk_in None ?z 16, Bulk_in None ?b5 16] @ [Bulk_in None ?z 16]))
     = [Usb_cmd_out CMD_LIST, Usb_cmd_out CMD_SENSOR_RESET, Usb_cmd_out CMD_SENSOR_ENROLL,
        Report_finger_status FP_FINGER_STATUS_NEEDED, Usb_interrupt_in,
        Report_finger_status FP_FINGER_STATUS_PRESENT, Usb_cmd_out CMD_SENSOR_CHECK,
        Usb_cmd_out (CMD_CHECK ([0x00, 0x00, 0x00, 0x49, 0x17, 0x03, 0x00, 0x40]
                                @ replicate 32 0x00 @ replicate 32 0x41 @ [0x40])),
        Enroll_complete False (Some FP_DEVICE_ERROR_DATA_DUPLICATE)]"
    by (simp only: e1 e2 e3 e4 e5 body append_Nil)
  with h1 h2 h3 h4 show ?thesis by (intro conjI)
qed

subsection \<open>The capture loop of the enroll machine\<close>





end
